theory Spec2Isabelle
  imports Complex_Main
begin

section \<open>Grid model and navigation (components/ComplaintMap.tsx)\<close>

text \<open>
  Grid coordinates are JavaScript numbers that only ever hold small integers (the seed is
  \<open>Math.floor(...) + min\<close>, every step adds a unit vector), so they are modelled as \<open>int\<close>.
\<close>

record GridPosition =
  street :: int
  avenue :: int

datatype Heading = north | east | south | west

datatype TurnDirection = turn_left | turn_right

record IntersectionLabel =
  street_label :: string
  avenue_label :: string

definition headingOrder :: "Heading list" where
  "headingOrder = [north, east, south, west]"

fun headingVectors :: "Heading \<Rightarrow> GridPosition" where
  "headingVectors north = \<lparr>street = 1, avenue = 0\<rparr>"
| "headingVectors south = \<lparr>street = -1, avenue = 0\<rparr>"
| "headingVectors east = \<lparr>street = 0, avenue = 1\<rparr>"
| "headingVectors west = \<lparr>street = 0, avenue = -1\<rparr>"

fun oppositeHeading :: "Heading \<Rightarrow> Heading" where
  "oppositeHeading north = south"
| "oppositeHeading south = north"
| "oppositeHeading east = west"
| "oppositeHeading west = east"

definition minStreet :: int where "minStreet = -25"
definition maxStreet :: int where "maxStreet = 55"
definition minAvenue :: int where "minAvenue = -6"
definition maxAvenue :: int where "maxAvenue = 6"

definition ORIGIN_STREET_NUMBER :: int where "ORIGIN_STREET_NUMBER = 45"
definition ORIGIN_AVENUE_NUMBER :: int where "ORIGIN_AVENUE_NUMBER = 7"

definition AVENUE_LABELS :: "(int \<times> string) list" where
  "AVENUE_LABELS =
    [(1, ''1st Ave''), (2, ''2nd Ave''), (3, ''3rd Ave''), (4, ''Lexington Ave''),
     (5, ''Madison Ave''), (6, ''6th Ave''), (7, ''7th Ave''), (8, ''8th Ave''),
     (9, ''9th Ave''), (10, ''10th Ave''), (11, ''11th Ave''), (12, ''12th Ave'')]"

text \<open>\<open>Array.prototype.indexOf\<close>: the first position of the element, \<open>-1\<close> when absent.\<close>

fun indexOf :: "'a list \<Rightarrow> 'a \<Rightarrow> int" where
  "indexOf [] x = -1"
| "indexOf (y # ys) x =
     (if y = x then 0 else (let i = indexOf ys x in if i < 0 then -1 else i + 1))"

text \<open>
  \<open>rotateHeading\<close>. The dividend \<open>index + offset + length\<close> is never negative (the index is at
  least \<open>-1\<close>), so JavaScript's truncating \<open>%\<close> agrees with \<open>mod\<close> here. The read
  \<open>headingOrder[nextIndex]\<close> is in range because \<open>0 \<le> nextIndex < 4\<close>.
\<close>

definition rotateHeading :: "Heading \<Rightarrow> TurnDirection \<Rightarrow> Heading" where
  "rotateHeading h turn =
     (let index = indexOf headingOrder h;
          offset = (if turn = turn_right then 1 else -1);
          nextIndex = (index + offset + int (length headingOrder)) mod int (length headingOrder)
      in headingOrder ! nat nextIndex)"

subsection \<open>Labels\<close>

text \<open>Decimal rendering of an integer, as a template literal renders a number.\<close>

fun digits :: "nat \<Rightarrow> string" where
  "digits n =
     (if n < 10 then [''0123456789'' ! n]
      else digits (n div 10) @ [''0123456789'' ! (n mod 10)])"

declare digits.simps [simp del]

definition number_to_string :: "int \<Rightarrow> string" where
  "number_to_string v = (if v < 0 then ''-'' @ digits (nat (- v)) else digits (nat v))"

definition ordinalSuffix :: "int \<Rightarrow> string" where
  "ordinalSuffix v =
     (let absValue = \<bar>v\<bar>;
          lastDigit = absValue mod 10;
          lastTwoDigits = absValue mod 100
      in if lastTwoDigits \<ge> 11 \<and> lastTwoDigits \<le> 13 then number_to_string v @ ''th''
         else if lastDigit = 1 then number_to_string v @ ''st''
         else if lastDigit = 2 then number_to_string v @ ''nd''
         else if lastDigit = 3 then number_to_string v @ ''rd''
         else number_to_string v @ ''th'')"

definition formatStreetLabel :: "GridPosition \<Rightarrow> string" where
  "formatStreetLabel p =
     (let streetNumber = ORIGIN_STREET_NUMBER + street p;
          avenueNumber = ORIGIN_AVENUE_NUMBER + avenue p;
          eastWestPrefix = (if avenueNumber \<ge> 5 then ''W'' else ''E'')
      in eastWestPrefix @ '' '' @ ordinalSuffix streetNumber @ '' St'')"

definition formatAvenueLabel :: "GridPosition \<Rightarrow> string" where
  "formatAvenueLabel p =
     (let avenueNumber = ORIGIN_AVENUE_NUMBER + avenue p
      in case map_of AVENUE_LABELS avenueNumber of
           Some l \<Rightarrow> l
         | None \<Rightarrow> ordinalSuffix avenueNumber @ '' Ave'')"

definition describeIntersection :: "GridPosition \<Rightarrow> IntersectionLabel" where
  "describeIntersection p =
     \<lparr>street_label = formatStreetLabel p, avenue_label = formatAvenueLabel p\<rparr>"

subsection \<open>Bounds\<close>

definition clampToBounds :: "GridPosition \<Rightarrow> GridPosition" where
  "clampToBounds c =
     \<lparr>street = min (max (street c) minStreet) maxStreet,
      avenue = min (max (avenue c) minAvenue) maxAvenue\<rparr>"

definition isWithinBounds :: "GridPosition \<Rightarrow> bool" where
  "isWithinBounds c \<longleftrightarrow>
     street c \<ge> minStreet \<and> street c \<le> maxStreet \<and>
     avenue c \<ge> minAvenue \<and> avenue c \<le> maxAvenue"

fun headingDescriptions :: "Heading \<Rightarrow> string" where
  "headingDescriptions north = ''north uptown''"
| "headingDescriptions south = ''south downtown''"
| "headingDescriptions east = ''east toward the river''"
| "headingDescriptions west = ''west toward the river''"

fun headingShort :: "Heading \<Rightarrow> string" where
  "headingShort north = ''North''"
| "headingShort south = ''South''"
| "headingShort east = ''East''"
| "headingShort west = ''West''"

subsection \<open>The navigation state machine\<close>

text \<open>
  The component's three pieces of React state. Each handler below is the handler as it runs
  on a freshly rendered component: the memoised values it closes over (\<open>forward\<close>,
  \<open>backward\<close>, \<open>leftHeading\<close>, \<open>rightHeading\<close>, \<open>position\<close>) are those of the current state, and
  the updater passed to \<open>setPosition\<close> receives that same position as \<open>prev\<close>.
\<close>

record NavState =
  position :: GridPosition
  heading :: Heading
  statusLine :: string

text \<open>The em dash of the status messages, as its UTF-8 bytes.\<close>

definition emdash :: string where
  "emdash = [CHR 0xE2, CHR 0x80, CHR 0x94]"

definition canMove :: "GridPosition \<Rightarrow> Heading \<Rightarrow> bool" where
  "canMove from direction =
     (let vector = headingVectors direction;
          candidate = \<lparr>street = street from + street vector,
                       avenue = avenue from + avenue vector\<rparr>
      in isWithinBounds candidate)"

definition moveOneBlock :: "Heading \<Rightarrow> NavState \<Rightarrow> NavState" where
  "moveOneBlock movementHeading s =
     (let prev = position s;
          vector = headingVectors movementHeading;
          candidate = \<lparr>street = street prev + street vector,
                       avenue = avenue prev + avenue vector\<rparr>
      in if \<not> isWithinBounds candidate then s
         else (let nextIntersectionLabel = describeIntersection candidate
               in s\<lparr>statusLine :=
                       ''Rolling '' @ headingDescriptions movementHeading @ '' toward '' @
                       street_label nextIntersectionLabel @ '' and '' @
                       avenue_label nextIntersectionLabel @ ''.'',
                     position := candidate\<rparr>))"

definition handleMoveForward :: "NavState \<Rightarrow> NavState" where
  "handleMoveForward s =
     (let forward = canMove (position s) (heading s)
      in if \<not> forward
         then s\<lparr>statusLine := ''Can't head toward '' @ headingShort (heading s) @ '' '' @
                               emdash @ '' that block is closed off.''\<rparr>
         else moveOneBlock (heading s) s)"

definition handleMoveBackward :: "NavState \<Rightarrow> NavState" where
  "handleMoveBackward s =
     (let reverseHeading = oppositeHeading (heading s);
          backward = canMove (position s) (oppositeHeading (heading s))
      in if \<not> backward
         then s\<lparr>statusLine := ''Can't back toward '' @ headingShort reverseHeading @ '' '' @
                               emdash @ '' construction behind you.''\<rparr>
         else moveOneBlock reverseHeading s)"

definition handleTurn :: "TurnDirection \<Rightarrow> NavState \<Rightarrow> NavState" where
  "handleTurn direction s =
     (let leftHeading = rotateHeading (heading s) turn_left;
          rightHeading = rotateHeading (heading s) turn_right;
          nextHeading = (if direction = turn_left then leftHeading else rightHeading);
          s1 = s\<lparr>heading := nextHeading\<rparr>
      in if \<not> canMove (position s) nextHeading
         then s1\<lparr>statusLine := ''Facing '' @ headingShort nextHeading @ '' '' @ emdash @
                                '' that block is closed off. Try another way or head back.''\<rparr>
         else moveOneBlock nextHeading s1)"

section \<open>JavaScript numbers\<close>

text \<open>
  A JavaScript number is a double: a finite value, one of the two infinities, or NaN. A finite
  value is held as the real number it denotes. The sign of zero is not kept; no operation of
  the code modelled here observes it (\<open>%\<close>, \<open><\<close>, \<open>Math.abs\<close>, \<open>Number.isFinite\<close> and
  \<open>toFixed\<close> treat \<open>-0\<close> as \<open>0\<close>). The operators are those the imagery code applies to
  numbers that may be non-finite (\<open>JSON.parse\<close> yields \<open>Infinity\<close> for an overflowing
  literal, \<open>Number.parseFloat\<close> yields NaN or an infinity).
\<close>

datatype number = Finite real | PosInfinity | NegInfinity | NaN

fun isFinite :: "number \<Rightarrow> bool" where
  "isFinite (Finite x) = True"
| "isFinite _ = False"

fun js_neg :: "number \<Rightarrow> number" where
  "js_neg (Finite x) = Finite (- x)"
| "js_neg PosInfinity = NegInfinity"
| "js_neg NegInfinity = PosInfinity"
| "js_neg NaN = NaN"

fun js_abs :: "number \<Rightarrow> number" where
  "js_abs (Finite x) = Finite \<bar>x\<bar>"
| "js_abs PosInfinity = PosInfinity"
| "js_abs NegInfinity = PosInfinity"
| "js_abs NaN = NaN"

subsection \<open>Rounding to the nearest double\<close>

text \<open>
  An arithmetic operation on doubles returns the exact result rounded to the nearest double,
  ties going to the even significand (IEEE 754, binary64). \<open>roundTiesToEven\<close> rounds a real
  to the nearest integer in that way. \<open>exponent x\<close> is the binary exponent of the doubles
  around \<open>x\<close>: the \<open>e\<close> with \<open>2^e \<le> |x| < 2^(e+1)\<close>, and \<open>-1022\<close> below the normal range;
  \<open>scaleDown\<close> and \<open>scaleUp\<close> find it by halving and doubling. The doubles at that exponent
  are the multiples of \<open>2^(e-52)\<close>, and \<open>round_double x\<close> is the nearest of them. A result
  beyond the largest double \<open>MAX_VALUE\<close> overflows to an infinity (\<open>fl\<close>).
\<close>

definition roundTiesToEven :: "real \<Rightarrow> int" where
  "roundTiesToEven r =
     (let f = \<lfloor>r\<rfloor>; d = r - of_int f
      in if d < 1 / 2 then f
         else if 1 / 2 < d then f + 1
         else if even f then f else f + 1)"

function scaleDown :: "real \<Rightarrow> int \<Rightarrow> int" where
  "scaleDown x e = (if x < 2 then e else scaleDown (x / 2) (e + 1))"
  by pat_completeness auto
termination
proof (relation "measure (\<lambda>(x, e). nat \<lceil>x\<rceil>)")
  fix x :: real and e :: int
  assume "\<not> x < 2"
  then have "\<lceil>x / 2\<rceil> < \<lceil>x\<rceil>" and "0 < \<lceil>x\<rceil>" by linarith+
  then show "((x / 2, e + 1), (x, e)) \<in> measure (\<lambda>(x, e). nat \<lceil>x\<rceil>)" by simp
qed simp

function scaleUp :: "real \<Rightarrow> int \<Rightarrow> int" where
  "scaleUp x e = (if 1 \<le> x \<or> e \<le> - 1022 then e else scaleUp (2 * x) (e - 1))"
  by pat_completeness auto
termination
  by (relation "measure (\<lambda>(x, e). nat (e + 1022))") auto

declare scaleDown.simps [simp del] scaleUp.simps [simp del]

definition exponent :: "real \<Rightarrow> int" where
  "exponent x = (if 1 \<le> \<bar>x\<bar> then scaleDown \<bar>x\<bar> 0 else scaleUp \<bar>x\<bar> 0)"

definition round_double :: "real \<Rightarrow> real" where
  "round_double x =
     (let ulp = power_int 2 (exponent x - 52)
      in ulp * of_int (roundTiesToEven (x / ulp)))"

definition MAX_VALUE :: real where
  "MAX_VALUE = 2 ^ 1024 - 2 ^ 971"

definition fl :: "real \<Rightarrow> number" where
  "fl x =
     (let r = round_double x
      in if MAX_VALUE < r then PosInfinity
         else if r < - MAX_VALUE then NegInfinity
         else Finite r)"

subsection \<open>Operators\<close>

text \<open>
  \<open>fl_add\<close> and \<open>fl_sub\<close> are \<open>+\<close> and \<open>-\<close> on doubles: the exact sum or difference,
  rounded. They are the operators of the angle arithmetic.
\<close>

fun fl_add :: "number \<Rightarrow> number \<Rightarrow> number" where
  "fl_add (Finite x) (Finite y) = fl (x + y)"
| "fl_add NaN _ = NaN"
| "fl_add _ NaN = NaN"
| "fl_add PosInfinity NegInfinity = NaN"
| "fl_add NegInfinity PosInfinity = NaN"
| "fl_add PosInfinity _ = PosInfinity"
| "fl_add _ PosInfinity = PosInfinity"
| "fl_add NegInfinity _ = NegInfinity"
| "fl_add _ NegInfinity = NegInfinity"

definition fl_sub :: "number \<Rightarrow> number \<Rightarrow> number" where
  "fl_sub a b = fl_add a (js_neg b)"

text \<open>
  \<open>js_add\<close> and \<open>js_sub\<close> are \<open>+\<close> and \<open>-\<close> without the rounding. They are used for the
  millisecond clock only: \<open>Date.now()\<close> and the timestamps stored from it are whole numbers
  far below \<open>2^52\<close>, on which the two subtractions agree (\<open>clock_subtraction_exact\<close>).
\<close>

fun js_add :: "number \<Rightarrow> number \<Rightarrow> number" where
  "js_add (Finite x) (Finite y) = Finite (x + y)"
| "js_add NaN _ = NaN"
| "js_add _ NaN = NaN"
| "js_add PosInfinity NegInfinity = NaN"
| "js_add NegInfinity PosInfinity = NaN"
| "js_add PosInfinity _ = PosInfinity"
| "js_add _ PosInfinity = PosInfinity"
| "js_add NegInfinity _ = NegInfinity"
| "js_add _ NegInfinity = NegInfinity"

definition js_sub :: "number \<Rightarrow> number \<Rightarrow> number" where
  "js_sub a b = js_add a (js_neg b)"

text \<open>
  The remainder operator \<open>%\<close> truncates the quotient toward zero, so the result has the sign
  of the dividend. The remainder of two doubles is a double: \<open>%\<close> does not round.
\<close>

definition trunc :: "real \<Rightarrow> int" where
  "trunc x = (if x \<ge> 0 then \<lfloor>x\<rfloor> else \<lceil>x\<rceil>)"

definition fmod :: "real \<Rightarrow> real \<Rightarrow> real" where
  "fmod x y = x - y * of_int (trunc (x / y))"

fun js_rem :: "number \<Rightarrow> number \<Rightarrow> number" where
  "js_rem (Finite x) (Finite y) = (if y = 0 then NaN else Finite (fmod x y))"
| "js_rem (Finite x) PosInfinity = Finite x"
| "js_rem (Finite x) NegInfinity = Finite x"
| "js_rem _ _ = NaN"

text \<open>The comparison \<open><\<close>; \<open>a > b\<close> is \<open>js_less b a\<close>. Every comparison with NaN is false.\<close>

fun js_less :: "number \<Rightarrow> number \<Rightarrow> bool" where
  "js_less (Finite x) (Finite y) = (x < y)"
| "js_less NaN _ = False"
| "js_less _ NaN = False"
| "js_less _ NegInfinity = False"
| "js_less PosInfinity _ = False"
| "js_less _ PosInfinity = True"
| "js_less NegInfinity _ = True"

section \<open>Bearing difference (app/api/streetview/route.ts, lib/streetviewCache.ts)\<close>

text \<open>\<open>a - b\<close> and \<open>360 - diff\<close> are subtractions of doubles and round.\<close>

definition normalizeBearingDifference :: "number \<Rightarrow> number \<Rightarrow> number" where
  "normalizeBearingDifference a b =
     (let diff = js_rem (js_abs (fl_sub a b)) (Finite 360)
      in if js_less (Finite 180) diff then fl_sub (Finite 360) diff else diff)"

section \<open>Frame selection (app/api/streetview/route.ts, lib/streetviewCache.ts)\<close>

text \<open>
  Values read from JSON. An object is held as the list of its properties, each name once, as
  \<open>JSON.parse\<close> builds it; \<open>map_of\<close> reads a property and \<open>None\<close> is \<open>undefined\<close>.
\<close>

datatype json =
    JNull | JBool bool | JNum number | JStr string | JArr "json list"
  | JObj "(string \<times> json) list"

text \<open>
  \<open>null\<close> fields are \<open>None\<close>. \<open>preferredIndex\<close> only ever holds an integer.
\<close>

record StreetViewFrame =
  imageUrl :: string
  capturedAt :: "string option"
  compassAngle :: "number option"
  frame_id :: "string option"

record StreetViewPayload =
  images :: "StreetViewFrame list"
  preferredIndex :: int

record CandidateFrame =
  frame :: StreetViewFrame
  diff :: number

text \<open>
  One record of the upstream response's \<open>data\<close> array (\<open>Record<string, unknown>\<close>).
  \<open>string_field\<close> is \<open>typeof image.k === "string" ? image.k : null\<close>, \<open>number_field\<close> the same
  test for \<open>"number"\<close>.
\<close>

type_synonym image_record = "(string \<times> json) list"

definition string_field :: "image_record \<Rightarrow> string \<Rightarrow> string option" where
  "string_field im k = (case map_of im k of Some (JStr s) \<Rightarrow> Some s | _ \<Rightarrow> None)"

definition number_field :: "image_record \<Rightarrow> string \<Rightarrow> number option" where
  "number_field im k = (case map_of im k of Some (JNum n) \<Rightarrow> Some n | _ \<Rightarrow> None)"

text \<open>The thumbnail chain: the first of the three url fields that holds a string.\<close>

definition pickThumb :: "image_record \<Rightarrow> string option" where
  "pickThumb im =
     (case string_field im ''thumb_2048_url'' of
        Some s \<Rightarrow> Some s
      | None \<Rightarrow>
         (case string_field im ''thumb_1024_url'' of
            Some s \<Rightarrow> Some s
          | None \<Rightarrow>
             (case string_field im ''thumb_512_url'' of
                Some s \<Rightarrow> Some s
              | None \<Rightarrow> None)))"

text \<open>
  The candidate pushed for one record. \<open>normalizedBearing\<close> is \<open>None\<close> for \<open>null\<close>.
\<close>

definition makeCandidate :: "number option \<Rightarrow> image_record \<Rightarrow> string \<Rightarrow> CandidateFrame" where
  "makeCandidate normalizedBearing im thumb =
     (let angle = number_field im ''compass_angle'';
          d = (case (normalizedBearing, angle) of
                 (Some b, Some a) \<Rightarrow> normalizeBearingDifference a b
               | _ \<Rightarrow> PosInfinity)
      in \<lparr>frame = \<lparr>imageUrl = thumb,
                     capturedAt = string_field im ''captured_at'',
                     compassAngle = angle,
                     frame_id = string_field im ''id''\<rparr>,
          diff = d\<rparr>)"

text \<open>
  The \<open>for (const image of images)\<close> loop, with the array \<open>candidates\<close> as accumulator. A record is
  skipped when \<open>!thumb\<close>: no url field holds a string, or the chosen one is the empty string.
\<close>

fun collectCandidates ::
  "number option \<Rightarrow> image_record list \<Rightarrow> CandidateFrame list \<Rightarrow> CandidateFrame list" where
  "collectCandidates normalizedBearing [] candidates = candidates"
| "collectCandidates normalizedBearing (im # rest) candidates =
     (case pickThumb im of
        None \<Rightarrow> collectCandidates normalizedBearing rest candidates
      | Some thumb \<Rightarrow>
          if thumb = [] then collectCandidates normalizedBearing rest candidates
          else collectCandidates normalizedBearing rest
                 (candidates @ [makeCandidate normalizedBearing im thumb]))"

text \<open>
  The \<open>candidates.forEach\<close> scan; its state is the pair of \<open>bestDiff\<close> and \<open>preferredIndex\<close>.
\<close>

fun scanBest :: "CandidateFrame list \<Rightarrow> int \<Rightarrow> number \<times> int \<Rightarrow> number \<times> int" where
  "scanBest [] index (bestDiff, preferred) = (bestDiff, preferred)"
| "scanBest (c # rest) index (bestDiff, preferred) =
     (if js_less (diff c) bestDiff
      then scanBest rest (index + 1) (diff c, index)
      else scanBest rest (index + 1) (bestDiff, preferred))"

definition emptyPayload :: StreetViewPayload where
  "emptyPayload = \<lparr>images = [], preferredIndex = 0\<rparr>"

text \<open>
  The payload the route handler builds from the upstream records, from \<open>images.length === 0\<close>
  down to \<open>payloadToReturn\<close>. The handler's cache writes, which follow each of the three
  returns under the same guard, are in \<open>lookupImagery\<close> below.
\<close>

definition selectPayload :: "number option \<Rightarrow> image_record list \<Rightarrow> StreetViewPayload" where
  "selectPayload normalizedBearing imgs =
     (if length imgs = 0 then emptyPayload
      else
        (let candidates = collectCandidates normalizedBearing imgs []
         in if length candidates = 0 then emptyPayload
            else
              (let preferred =
                     (if normalizedBearing \<noteq> None
                      then snd (scanBest candidates 0 (PosInfinity, 0))
                      else 0);
                   frames = map frame candidates
               in \<lparr>images = frames,
                   preferredIndex = min (max preferred 0) (int (length frames) - 1)\<rparr>)))"

text \<open>
  What one record contributes to \<open>candidates\<close>; the loop is shown below to collect exactly
  these.
\<close>

definition candidateOf :: "number option \<Rightarrow> image_record \<Rightarrow> CandidateFrame option" where
  "candidateOf normalizedBearing im =
     (case pickThumb im of
        None \<Rightarrow> None
      | Some thumb \<Rightarrow> if thumb = [] then None else Some (makeCandidate normalizedBearing im thumb))"

subsection \<open>The selection in the words of its specification\<close>

text \<open>
  A second description of the selection, written from its specification and not from the
  loop, for the two to be compared. A url field is usable when it holds a non-empty string
  (\<open>spec_usable\<close>: some url field of the record is). The thumbnail of a record is the first of
  its three url fields, the highest resolution first, that holds a string
  (\<open>spec_thumbnail\<close>); the record is listed when that string is not empty (\<open>spec_listed\<close>).
  \<open>spec_frame\<close> is the frame listed for a record and \<open>spec_difference b\<close> its score against
  the bearing \<open>b\<close>: the bearing difference of its compass angle, infinite when the record has
  no numeric compass angle.
\<close>

definition thumbKeys :: "string list" where
  "thumbKeys = [''thumb_2048_url'', ''thumb_1024_url'', ''thumb_512_url'']"

definition spec_usable :: "image_record \<Rightarrow> bool" where
  "spec_usable im \<longleftrightarrow>
     list_ex (\<lambda>k. case map_of im k of Some (JStr s) \<Rightarrow> s \<noteq> [] | _ \<Rightarrow> False) thumbKeys"

definition spec_thumbnail :: "image_record \<Rightarrow> string option" where
  "spec_thumbnail im =
     (case List.map_filter (\<lambda>k. case map_of im k of Some (JStr s) \<Rightarrow> Some s | _ \<Rightarrow> None)
             thumbKeys of
        [] \<Rightarrow> None
      | s # others \<Rightarrow> Some s)"

definition spec_listed :: "image_record \<Rightarrow> bool" where
  "spec_listed im = (case spec_thumbnail im of None \<Rightarrow> False | Some s \<Rightarrow> s \<noteq> [])"

definition spec_frame :: "image_record \<Rightarrow> StreetViewFrame" where
  "spec_frame im =
     \<lparr>imageUrl = (case spec_thumbnail im of None \<Rightarrow> [] | Some s \<Rightarrow> s),
      capturedAt = (case map_of im ''captured_at'' of Some (JStr s) \<Rightarrow> Some s | _ \<Rightarrow> None),
      compassAngle = (case map_of im ''compass_angle'' of Some (JNum a) \<Rightarrow> Some a | _ \<Rightarrow> None),
      frame_id = (case map_of im ''id'' of Some (JStr s) \<Rightarrow> Some s | _ \<Rightarrow> None)\<rparr>"

definition spec_difference :: "number \<Rightarrow> image_record \<Rightarrow> number" where
  "spec_difference b im =
     (case map_of im ''compass_angle'' of
        Some (JNum a) \<Rightarrow> normalizeBearingDifference a b
      | _ \<Rightarrow> PosInfinity)"

section \<open>The browser cache (lib/streetviewCache.ts, memory and localStorage)\<close>

definition CACHE_VERSION :: real where "CACHE_VERSION = 2"
definition CACHE_TTL_MS :: real where "CACHE_TTL_MS = 1000 * 60 * 60 * 24 * 7"
definition CACHE_KEY_PREFIX :: string where "CACHE_KEY_PREFIX = ''streetview-cache:v2:''"

text \<open>
  An entry as it exists at run time: the payload is whatever object was stored, so it is a
  JSON value (\<open>loadFromStorage\<close> returns the parsed object unchanged, \<open>parsed as CacheEntry\<close>).
\<close>

record CacheEntry =
  payload :: json
  cachedAt :: number
  version :: number

text \<open>
  A string held in \<open>localStorage\<close>, seen as its reader sees it: the empty string, a non-empty
  string that \<open>JSON.parse\<close> rejects, or a string that \<open>JSON.parse\<close> turns into a value.
\<close>

datatype stored_text = EmptyText | Unparsable | Parses json

text \<open>
  The module state and its surroundings. \<open>window_defined\<close> is \<open>typeof window !== "undefined"\<close>;
  \<open>persistentStorage\<close> is what \<open>getPersistentStorage()\<close> returns, \<open>None\<close> for \<open>null\<close> (the probe
  failed or there is no window); \<open>setItem_throws\<close> says whether \<open>storage.setItem\<close> throws, as
  it does when the quota is exceeded. \<open>storage.removeItem\<close> does not throw.
\<close>

record BrowserCache =
  window_defined :: bool
  memoryCache :: "string \<rightharpoonup> CacheEntry"
  persistentStorage :: "(string \<rightharpoonup> stored_text) option"
  setItem_throws :: bool

definition browser_normalizeBearing :: "number \<Rightarrow> number" where
  "browser_normalizeBearing bearing =
     (if \<not> isFinite bearing then Finite 0
      else (let normalized = js_rem bearing (Finite 360)
            in if js_less normalized (Finite 0) then fl_add normalized (Finite 360)
               else normalized))"

text \<open>
  Keys are built with \<open>Number.prototype.toFixed\<close>, which formats the double itself. The
  functions that build a key take that formatter as their first argument \<open>toFixed\<close>
  (\<open>toFixed x d\<close> for \<open>x.toFixed(d)\<close>); nothing is assumed about it.
\<close>

definition getCacheKey ::
  "(number \<Rightarrow> nat \<Rightarrow> string) \<Rightarrow> number \<Rightarrow> number \<Rightarrow> number \<Rightarrow> string" where
  "getCacheKey toFixed lat lng bearing =
     toFixed lat 6 @ ''|'' @ toFixed lng 6 @ ''|'' @ toFixed (browser_normalizeBearing bearing) 1"

text \<open>\<open>now\<close> is the value of \<open>Date.now()\<close>.\<close>

definition isExpired :: "real \<Rightarrow> CacheEntry \<Rightarrow> bool" where
  "isExpired now entry = js_less (Finite CACHE_TTL_MS) (js_sub (Finite now) (cachedAt entry))"

text \<open>
  The shape test of \<open>loadFromStorage\<close> on the parsed value. Only a JSON object can have a
  \<open>version\<close> property, so every other value fails; \<open>typeof payload === "object"\<close> holds for
  objects and arrays.
\<close>

fun validateEntry :: "json \<Rightarrow> CacheEntry option" where
  "validateEntry (JObj props) =
     (if map_of props ''version'' \<noteq> Some (JNum (Finite CACHE_VERSION)) then None
      else case map_of props ''cachedAt'' of
             Some (JNum c) \<Rightarrow>
               (case map_of props ''payload'' of
                  Some (JObj p) \<Rightarrow>
                    Some \<lparr>payload = JObj p, cachedAt = c, version = Finite CACHE_VERSION\<rparr>
                | Some (JArr p) \<Rightarrow>
                    Some \<lparr>payload = JArr p, cachedAt = c, version = Finite CACHE_VERSION\<rparr>
                | _ \<Rightarrow> None)
           | _ \<Rightarrow> None)"
| "validateEntry _ = None"

definition removeItem :: "string \<Rightarrow> BrowserCache \<Rightarrow> BrowserCache" where
  "removeItem key st =
     (case persistentStorage st of
        None \<Rightarrow> st
      | Some storage \<Rightarrow> st\<lparr>persistentStorage := Some (storage(key := None))\<rparr>)"

text \<open>What \<open>storage.getItem(key)\<close> finds; also \<open>None\<close> when there is no storage.\<close>

definition getItem :: "string \<Rightarrow> BrowserCache \<Rightarrow> stored_text option" where
  "getItem key st =
     (case persistentStorage st of
        None \<Rightarrow> None
      | Some storage \<Rightarrow> storage key)"

text \<open>
  \<open>loadFromStorage\<close>: \<open>!raw\<close> holds for a missing item and for the empty string, and returns
  before anything is removed; a parse error (the \<open>catch\<close>) and a failed shape test both
  remove the item.
\<close>

definition loadFromStorage :: "string \<Rightarrow> BrowserCache \<Rightarrow> CacheEntry option \<times> BrowserCache" where
  "loadFromStorage key st =
     (case persistentStorage st of
        None \<Rightarrow> (None, st)
      | Some storage \<Rightarrow>
          (case storage key of
             None \<Rightarrow> (None, st)
           | Some EmptyText \<Rightarrow> (None, st)
           | Some Unparsable \<Rightarrow> (None, removeItem key st)
           | Some (Parses parsed) \<Rightarrow>
               (case validateEntry parsed of
                  None \<Rightarrow> (None, removeItem key st)
                | Some entry \<Rightarrow> (Some entry, st))))"

text \<open>
  What \<open>JSON.parse\<close> reads back from \<open>JSON.stringify\<close> of a value: non-finite numbers are
  written as \<open>null\<close>.
\<close>

primrec stringify_parse :: "json \<Rightarrow> json" where
  "stringify_parse JNull = JNull"
| "stringify_parse (JBool b) = JBool b"
| "stringify_parse (JNum n) = (if isFinite n then JNum n else JNull)"
| "stringify_parse (JStr s) = JStr s"
| "stringify_parse (JArr xs) = JArr (map stringify_parse xs)"
| "stringify_parse (JObj ps) = JObj (map (map_prod id stringify_parse) ps)"

definition entry_json :: "CacheEntry \<Rightarrow> json" where
  "entry_json entry =
     JObj [(''payload'', payload entry), (''cachedAt'', JNum (cachedAt entry)),
           (''version'', JNum (version entry))]"

definition saveToStorage :: "string \<Rightarrow> CacheEntry \<Rightarrow> BrowserCache \<Rightarrow> BrowserCache" where
  "saveToStorage key entry st =
     (case persistentStorage st of
        None \<Rightarrow> st
      | Some storage \<Rightarrow>
          if setItem_throws st then st
          else st\<lparr>persistentStorage :=
                    Some (storage(key \<mapsto> Parses (stringify_parse (entry_json entry))))\<rparr>)"

definition removeFromStorage :: "string \<Rightarrow> BrowserCache \<Rightarrow> BrowserCache" where
  "removeFromStorage key st = removeItem key st"

definition browser_getCachedStreetView ::
  "(number \<Rightarrow> nat \<Rightarrow> string) \<Rightarrow> real \<Rightarrow> number \<Rightarrow> number \<Rightarrow> number \<Rightarrow> BrowserCache
     \<Rightarrow> json option \<times> BrowserCache" where
  "browser_getCachedStreetView toFixed now lat lng bearing st =
     (if \<not> window_defined st then (None, st)
      else
        (let cacheKey = CACHE_KEY_PREFIX @ getCacheKey toFixed lat lng bearing
         in case memoryCache st cacheKey of
              Some inMemory \<Rightarrow>
                if isExpired now inMemory
                then (None, removeFromStorage cacheKey
                              (st\<lparr>memoryCache := (memoryCache st)(cacheKey := None)\<rparr>))
                else (Some (payload inMemory), st)
            | None \<Rightarrow>
                (case loadFromStorage cacheKey st of
                   (None, st1) \<Rightarrow> (None, st1)
                 | (Some persisted, st1) \<Rightarrow>
                     if isExpired now persisted then (None, removeFromStorage cacheKey st1)
                     else (Some (payload persisted),
                           st1\<lparr>memoryCache := (memoryCache st1)(cacheKey \<mapsto> persisted)\<rparr>))))"

definition browser_setCachedStreetView ::
  "(number \<Rightarrow> nat \<Rightarrow> string) \<Rightarrow> real \<Rightarrow> number \<Rightarrow> number \<Rightarrow> number \<Rightarrow> json \<Rightarrow> BrowserCache
     \<Rightarrow> BrowserCache" where
  "browser_setCachedStreetView toFixed now lat lng bearing p st =
     (if \<not> window_defined st then st
      else
        (let cacheKey = CACHE_KEY_PREFIX @ getCacheKey toFixed lat lng bearing;
             entry = \<lparr>payload = p, cachedAt = Finite now, version = Finite CACHE_VERSION\<rparr>
         in saveToStorage cacheKey entry
              (st\<lparr>memoryCache := (memoryCache st)(cacheKey \<mapsto> entry)\<rparr>)))"

text \<open>
  Without a window neither tier ever holds anything: \<open>setCachedStreetView\<close> returns before
  it stores, and \<open>getPersistentStorage\<close> answers \<open>null\<close>. The module starts in such a state
  and both exported functions keep it so.
\<close>

definition cache_wf :: "BrowserCache \<Rightarrow> bool" where
  "cache_wf st \<longleftrightarrow>
     (\<not> window_defined st \<longrightarrow> memoryCache st = Map.empty \<and> persistentStorage st = None)"

text \<open>
  The selection made by \<open>fetchStreetView\<close> in the same module. Its loop and scan are those of the
  route handler, guarded by \<open>Number.isFinite(normalizedBearing)\<close> where the handler tests
  \<open>normalizedBearing != null\<close>.
\<close>

definition fetchStreetView_select :: "number \<Rightarrow> image_record list \<Rightarrow> StreetViewPayload" where
  "fetchStreetView_select bearing imgs =
     (let normalizedBearing = browser_normalizeBearing bearing
      in selectPayload (if isFinite normalizedBearing then Some normalizedBearing else None) imgs)"

section \<open>The server cache (lib/streetviewCache.ts, file backed)\<close>

text \<open>
  \<open>CacheEntry\<close> of the server module: the payload's two fields and the request it answers.
  The store is \<open>cacheStore.entries\<close> as \<open>loadCache\<close> returns it, the object every later call
  in the process sees. \<open>loadCache\<close> catches the errors of reading the file; the contents of
  the file are not modelled.
\<close>

record ServerCacheEntry =
  entry_images :: "StreetViewFrame list"
  entry_preferredIndex :: int
  entry_lat :: number
  entry_lng :: number
  entry_bearing :: number
  entry_cachedAt :: number

type_synonym CacheShape = "string \<rightharpoonup> ServerCacheEntry"

text \<open>
  How an awaited call ends: it returns a value, or it throws. \<open>persistCache\<close> throws when
  \<open>fs.mkdir\<close> or \<open>fs.writeFile\<close> fails; nothing in the module catches that. The two exported
  functions take as \<open>persistThrows\<close> whether the \<open>persistCache\<close> they may await throws. They
  change \<open>cacheStore.entries\<close> before they await it, so the store is changed also when it
  throws.
\<close>

datatype 'a completion = Returns 'a | Throws

definition getKey ::
  "(number \<Rightarrow> nat \<Rightarrow> string) \<Rightarrow> number \<Rightarrow> number \<Rightarrow> number \<Rightarrow> string" where
  "getKey toFixed lat lng bearing =
     (let latKey = toFixed lat 6;
          lngKey = toFixed lng 6;
          bearingKey = toFixed bearing 1
      in latKey @ ''|'' @ lngKey @ ''|'' @ bearingKey)"

definition normalizeBearing :: "number \<Rightarrow> number" where
  "normalizeBearing bearing =
     (let normalized = js_rem bearing (Finite 360)
      in if js_less normalized (Finite 0) then fl_add normalized (Finite 360) else normalized)"

definition getCachedStreetView ::
  "(number \<Rightarrow> nat \<Rightarrow> string) \<Rightarrow> bool \<Rightarrow> real \<Rightarrow> number \<Rightarrow> number \<Rightarrow> number \<Rightarrow> CacheShape
     \<Rightarrow> StreetViewPayload option completion \<times> CacheShape" where
  "getCachedStreetView toFixed persistThrows now lat lng bearing entries =
     (let key = getKey toFixed lat lng (normalizeBearing bearing)
      in case entries key of
           None \<Rightarrow> (Returns None, entries)
         | Some entry \<Rightarrow>
             if js_less (Finite CACHE_TTL_MS) (js_sub (Finite now) (entry_cachedAt entry))
             then (if persistThrows then Throws else Returns None, entries(key := None))
             else (Returns (Some \<lparr>images = entry_images entry,
                                   preferredIndex = entry_preferredIndex entry\<rparr>), entries))"

definition setCachedStreetView ::
  "(number \<Rightarrow> nat \<Rightarrow> string) \<Rightarrow> bool \<Rightarrow> real \<Rightarrow> number \<Rightarrow> number \<Rightarrow> number
     \<Rightarrow> StreetViewPayload \<Rightarrow> CacheShape \<Rightarrow> unit completion \<times> CacheShape" where
  "setCachedStreetView toFixed persistThrows now lat lng bearing p entries =
     (let key = getKey toFixed lat lng (normalizeBearing bearing)
      in (if persistThrows then Throws else Returns (),
          entries(key \<mapsto>
            \<lparr>entry_images = images p,
             entry_preferredIndex = preferredIndex p,
             entry_lat = lat,
             entry_lng = lng,
             entry_bearing = normalizeBearing bearing,
             entry_cachedAt = Finite now\<rparr>)))"

section \<open>The imagery route (app/api/streetview/route.ts, GET)\<close>

text \<open>
  The query parameters as \<open>searchParams.get\<close> returns them (\<open>None\<close> for \<open>null\<close>).
\<close>

record request =
  latParam :: "string option"
  lngParam :: "string option"
  bearingParam :: "string option"

text \<open>
  What the upstream does when it is asked: \<open>fetch\<close> throws, or answers with \<open>response.ok\<close> and a
  body. The body is what \<open>await response.json()\<close> yields: a JSON value, or \<open>None\<close> when the
  body is not JSON and the call throws. The handler reads the body only when \<open>response.ok\<close>
  holds.
\<close>

datatype upstream = FetchThrows | FetchResponse bool "json option"

text \<open>
  \<open>payload.data ?? []\<close> and the elements the loop \<open>for (const image of images)\<close> visits, for
  any JSON value \<open>payload\<close>; the handler's cast to \<open>{ data?: Array<Record<string, unknown>> }\<close>
  checks nothing. Reading \<open>.data\<close> of \<open>null\<close> throws; of a number, string, boolean or
  array it is \<open>undefined\<close>. With \<open>images\<close> the value of \<open>data\<close>:

    \<^item> an array is iterated, and reading a property of an element that is \<open>null\<close> throws;
      an element that is no object has none of the properties the loop reads;
    \<^item> a string is iterated character by character, and a character has none of them;
    \<^item> a number or a boolean has no \<open>length\<close>, and iterating it throws;
    \<^item> an object that is no array passes for empty when its \<open>length\<close> property is \<open>0\<close>, and
      iterating it throws otherwise.

  The loop changes nothing outside itself, so a throw at any element is a throw of the loop.
\<close>

fun imageRecord :: "json \<Rightarrow> image_record" where
  "imageRecord (JObj props) = props"
| "imageRecord _ = []"

fun iterateImages :: "json \<Rightarrow> image_record list completion" where
  "iterateImages (JArr xs) = (if JNull \<in> set xs then Throws else Returns (map imageRecord xs))"
| "iterateImages (JStr s) = Returns (map (\<lambda>c. []) s)"
| "iterateImages (JObj props) =
     (if map_of props ''length'' = Some (JNum (Finite 0)) then Returns [] else Throws)"
| "iterateImages JNull = Returns []"
| "iterateImages _ = Throws"

fun responseImages :: "json \<Rightarrow> image_record list completion" where
  "responseImages JNull = Throws"
| "responseImages (JObj props) =
     (case map_of props ''data'' of
        None \<Rightarrow> Returns []
      | Some d \<Rightarrow> iterateImages d)"
| "responseImages _ = Returns []"

text \<open>
  What the handler ends with: a response it returns, or an exception it does not catch, which
  the framework answers with status 500.
\<close>

datatype response =
    ErrorResponse nat string | PayloadResponse StreetViewPayload | UncaughtException

fun status :: "response \<Rightarrow> nat" where
  "status (ErrorResponse code msg) = code"
| "status (PayloadResponse p) = 200"
| "status UncaughtException = 500"

text \<open>
  The handler's surroundings: the access token of the process environment, the library
  functions \<open>Number.parseFloat\<close> and \<open>toFixed\<close>, the upstream's behaviour, the clock at the
  cache read and at the cache write, and whether \<open>persistCache\<close> throws when the read and when
  the write await it. The handler returns how it ends, the cache it leaves, and the cache
  reads, upstream queries and cache writes it made, in order.
\<close>

datatype effect = CacheRead string | CacheWrite string | UpstreamQuery

record route_env =
  accessToken :: "string option"
  parseFloat :: "string \<Rightarrow> number"
  toFixed :: "number \<Rightarrow> nat \<Rightarrow> string"
  fetch :: upstream
  now_at_read :: real
  now_at_write :: real
  persistThrows_at_read :: bool
  persistThrows_at_write :: bool

text \<open>\<open>!s\<close> for a value that is a string, \<open>null\<close> or \<open>undefined\<close>.\<close>

definition falsy :: "string option \<Rightarrow> bool" where
  "falsy s \<longleftrightarrow> s = None \<or> s = Some []"

text \<open>
  \<open>normalizedBearing\<close>, from \<open>bearingPreference\<close> and \<open>normalizedBearingRaw\<close>; the addition of
  360 rounds.
\<close>

definition requestBearing :: "route_env \<Rightarrow> request \<Rightarrow> number option" where
  "requestBearing env req =
     (let bearingPreference =
            (case bearingParam req of
               None \<Rightarrow> None
             | Some bp \<Rightarrow> Some (js_rem (parseFloat env bp) (Finite 360)));
          normalizedBearingRaw =
            (case bearingPreference of
               None \<Rightarrow> None
             | Some bp \<Rightarrow>
                 Some (js_rem (fl_add (js_rem bp (Finite 360)) (Finite 360)) (Finite 360)))
      in case normalizedBearingRaw of
           None \<Rightarrow> None
         | Some raw \<Rightarrow> if \<not> isFinite raw then None else Some raw)"

text \<open>
  The handler from the upstream request on. The bounding box only shapes the request url and
  is left out. \<open>trace\<close> holds the effects made so far. The three returns of a payload (no
  images, no usable images, the selected frames) each follow the same guarded cache write;
  \<open>selectPayload\<close> gives the payload of all three.
\<close>

definition lookupImagery ::
  "route_env \<Rightarrow> number \<Rightarrow> number \<Rightarrow> number option \<Rightarrow> CacheShape \<Rightarrow> effect list
     \<Rightarrow> response \<times> CacheShape \<times> effect list" where
  "lookupImagery env lat lng normalizedBearing entries trace =
     (case fetch env of
        FetchThrows \<Rightarrow>
          (ErrorResponse 502 ''Failed to reach street imagery service.'', entries,
           trace @ [UpstreamQuery])
      | FetchResponse ok body \<Rightarrow>
          if \<not> ok
          then (ErrorResponse 502 ''Street imagery request failed.'', entries,
                trace @ [UpstreamQuery])
          else
            (case body of
               None \<Rightarrow> (UncaughtException, entries, trace @ [UpstreamQuery])
             | Some parsed \<Rightarrow>
                 (case responseImages parsed of
                    Throws \<Rightarrow> (UncaughtException, entries, trace @ [UpstreamQuery])
                  | Returns imgs \<Rightarrow>
                      (let payloadToReturn = selectPayload normalizedBearing imgs
                       in case normalizedBearing of
                            None \<Rightarrow>
                              (PayloadResponse payloadToReturn, entries,
                               trace @ [UpstreamQuery])
                          | Some b \<Rightarrow>
                              (case setCachedStreetView (toFixed env)
                                      (persistThrows_at_write env) (now_at_write env) lat lng b
                                      payloadToReturn entries of
                                 (Throws, entries1) \<Rightarrow>
                                   (UncaughtException, entries1,
                                    trace @ [UpstreamQuery,
                                             CacheWrite (getKey (toFixed env) lat lng
                                                           (normalizeBearing b))])
                               | (Returns u, entries1) \<Rightarrow>
                                   (PayloadResponse payloadToReturn, entries1,
                                    trace @ [UpstreamQuery,
                                             CacheWrite (getKey (toFixed env) lat lng
                                                           (normalizeBearing b))]))))))"

definition GET ::
  "route_env \<Rightarrow> request \<Rightarrow> CacheShape \<Rightarrow> response \<times> CacheShape \<times> effect list" where
  "GET env req entries =
     (case (latParam req, lngParam req) of
        (Some latP, Some lngP) \<Rightarrow>
          if latP = [] \<or> lngP = []
          then (ErrorResponse 400 ''Missing lat/lng parameters.'', entries, [])
          else if falsy (accessToken env)
          then (ErrorResponse 500 ''Street imagery unavailable. No access token.'', entries, [])
          else
            (let lat = parseFloat env latP;
                 lng = parseFloat env lngP;
                 normalizedBearing = requestBearing env req
             in if \<not> isFinite lat \<or> \<not> isFinite lng
                then (ErrorResponse 400 ''Invalid lat/lng parameters.'', entries, [])
                else
                  (case normalizedBearing of
                     None \<Rightarrow> lookupImagery env lat lng normalizedBearing entries []
                   | Some b \<Rightarrow>
                       (case getCachedStreetView (toFixed env) (persistThrows_at_read env)
                               (now_at_read env) lat lng b entries of
                          (Throws, entries1) \<Rightarrow>
                            (UncaughtException, entries1,
                             [CacheRead (getKey (toFixed env) lat lng (normalizeBearing b))])
                        | (Returns (Some cached), entries1) \<Rightarrow>
                            (PayloadResponse cached, entries1,
                             [CacheRead (getKey (toFixed env) lat lng (normalizeBearing b))])
                        | (Returns None, entries1) \<Rightarrow>
                            lookupImagery env lat lng normalizedBearing entries1
                              [CacheRead (getKey (toFixed env) lat lng (normalizeBearing b))])))
      | _ \<Rightarrow> (ErrorResponse 400 ''Missing lat/lng parameters.'', entries, []))"

subsection \<open>Values for the worked examples\<close>

text \<open>
  The results \<open>Number.parseFloat\<close> and \<open>toFixed\<close> give on the strings and numbers that occur in
  the examples further down: Times Square and the bearing of a walker facing east. Other
  arguments do not occur there.
\<close>

definition example_parseFloat :: "string \<Rightarrow> number" where
  "example_parseFloat s =
     (if s = ''40.758'' then Finite (40758 / 1000)
      else if s = ''-73.9855'' then Finite (- (739855 / 10000))
      else if s = ''90'' then Finite 90
      else NaN)"

definition example_toFixed :: "number \<Rightarrow> nat \<Rightarrow> string" where
  "example_toFixed x d =
     (if x = Finite (40758 / 1000) \<and> d = 6 then ''40.758000''
      else if x = Finite (- (739855 / 10000)) \<and> d = 6 then ''-73.985500''
      else if x = Finite 90 \<and> d = 1 then ''90.0''
      else ''NaN'')"

definition example_env :: "upstream \<Rightarrow> real \<Rightarrow> route_env" where
  "example_env up now =
     \<lparr>accessToken = Some ''token'', parseFloat = example_parseFloat,
      toFixed = example_toFixed, fetch = up, now_at_read = now, now_at_write = now,
      persistThrows_at_read = False, persistThrows_at_write = False\<rparr>"

definition example_request :: request where
  "example_request =
     \<lparr>latParam = Some ''40.758'', lngParam = Some ''-73.9855'', bearingParam = Some ''90''\<rparr>"

text \<open>
  The browser cache of the examples: a window, an empty memory tier, and one stored item
  under the key of that request. The stored entry carries the empty payload.
\<close>

definition example_key :: string where
  "example_key =
     CACHE_KEY_PREFIX @
     getCacheKey example_toFixed (Finite (40758 / 1000)) (Finite (- (739855 / 10000))) (Finite 90)"

definition example_browser_cache :: "stored_text \<Rightarrow> BrowserCache" where
  "example_browser_cache t =
     \<lparr>window_defined = True, memoryCache = Map.empty,
      persistentStorage = Some (Map.empty(example_key \<mapsto> t)), setItem_throws = False\<rparr>"

definition emptyPayload_json :: json where
  "emptyPayload_json = JObj [(''images'', JArr []), (''preferredIndex'', JNum (Finite 0))]"

definition example_stored_entry :: "real \<Rightarrow> real \<Rightarrow> json" where
  "example_stored_entry v t =
     JObj [(''payload'', emptyPayload_json), (''cachedAt'', JNum (Finite t)),
           (''version'', JNum (Finite v))]"

section \<open>Properties of the navigation state machine\<close>

lemmas bounds_defs = minStreet_def maxStreet_def minAvenue_def maxAvenue_def

lemma rotateHeading_right:
  "rotateHeading h turn_right =
     (case h of north \<Rightarrow> east | east \<Rightarrow> south | south \<Rightarrow> west | west \<Rightarrow> north)"
  by (cases h) (simp_all add: rotateHeading_def headingOrder_def)

lemma rotateHeading_left:
  "rotateHeading h turn_left =
     (case h of north \<Rightarrow> west | west \<Rightarrow> south | south \<Rightarrow> east | east \<Rightarrow> north)"
  by (cases h) (simp_all add: rotateHeading_def headingOrder_def)

lemma position_moveOneBlock:
  "position (moveOneBlock h s) =
     (if canMove (position s) h
      then \<lparr>street = street (position s) + street (headingVectors h),
            avenue = avenue (position s) + avenue (headingVectors h)\<rparr>
      else position s)"
  by (simp add: moveOneBlock_def canMove_def Let_def)

lemma heading_moveOneBlock: "heading (moveOneBlock h s) = heading s"
  by (simp add: moveOneBlock_def Let_def)

lemma moveOneBlock_in_bounds:
  "isWithinBounds (position s) \<Longrightarrow> isWithinBounds (position (moveOneBlock h s))"
  by (simp add: position_moveOneBlock canMove_def Let_def)

lemma headingVectors_opposite:
  "headingVectors (oppositeHeading h) =
     \<lparr>street = - street (headingVectors h), avenue = - avenue (headingVectors h)\<rparr>"
  by (cases h) simp_all

text \<open>
  C2. From a state whose position is within the bounds, each of the four transitions (move
  forward, move backward, turn left, turn right) leaves the position within the bounds. When
  the cell ahead is out of bounds, moving forward leaves the position as it is and sets the
  status line to the blocked message for the current heading.
\<close>

theorem nav_transitions_stay_in_bounds:
  assumes "isWithinBounds (position s)"
  shows "isWithinBounds (position (handleMoveForward s)) \<and>
         isWithinBounds (position (handleMoveBackward s)) \<and>
         isWithinBounds (position (handleTurn turn_left s)) \<and>
         isWithinBounds (position (handleTurn turn_right s)) \<and>
         (\<not> isWithinBounds
              \<lparr>street = street (position s) + street (headingVectors (heading s)),
               avenue = avenue (position s) + avenue (headingVectors (heading s))\<rparr> \<longrightarrow>
            position (handleMoveForward s) = position s \<and>
            statusLine (handleMoveForward s) =
              ''Can't head toward '' @ headingShort (heading s) @ '' '' @ emdash @
              '' that block is closed off.'')"
  using assms
  by (simp add: handleMoveForward_def handleMoveBackward_def handleTurn_def Let_def
      moveOneBlock_in_bounds canMove_def)

text \<open>
  The bounds scenario: at \<open>street = maxStreet\<close> facing north, moving forward is blocked.
\<close>

theorem nav_transitions_stay_in_bounds_witness:
  "isWithinBounds \<lparr>street = 55, avenue = 0\<rparr> \<and>
   position (handleMoveForward
       \<lparr>position = \<lparr>street = 55, avenue = 0\<rparr>, heading = north, statusLine = ''''\<rparr>)
     = \<lparr>street = 55, avenue = 0\<rparr> \<and>
   statusLine (handleMoveForward
       \<lparr>position = \<lparr>street = 55, avenue = 0\<rparr>, heading = north, statusLine = ''''\<rparr>)
     = ''Can't head toward North '' @ emdash @ '' that block is closed off.''"
  using nav_transitions_stay_in_bounds
    [of "\<lparr>position = \<lparr>street = 55, avenue = 0\<rparr>, heading = north, statusLine = ''''\<rparr>"]
  by (simp add: isWithinBounds_def bounds_defs)

text \<open>
  C3. A turn first rotates the heading one step in the cyclic order north, east, south, west
  (right) or its reverse (left). If the cell one block ahead in the new heading is within the
  bounds, the position advances to it; otherwise the position is unchanged and only the
  heading changes. From (0, 0) facing north, turning right gives heading east and
  position (0, 1).
\<close>

theorem handleTurn_rotates_then_moves:
  "rotateHeading h turn_right =
     (case h of north \<Rightarrow> east | east \<Rightarrow> south | south \<Rightarrow> west | west \<Rightarrow> north) \<and>
   rotateHeading h turn_left =
     (case h of north \<Rightarrow> west | west \<Rightarrow> south | south \<Rightarrow> east | east \<Rightarrow> north) \<and>
   heading (handleTurn d s) = rotateHeading (heading s) d \<and>
   position (handleTurn d s) =
     (let v = headingVectors (rotateHeading (heading s) d);
          ahead = \<lparr>street = street (position s) + street v,
                   avenue = avenue (position s) + avenue v\<rparr>
      in if isWithinBounds ahead then ahead else position s) \<and>
   heading (handleTurn turn_right
       \<lparr>position = \<lparr>street = 0, avenue = 0\<rparr>, heading = north, statusLine = st\<rparr>) = east \<and>
   position (handleTurn turn_right
       \<lparr>position = \<lparr>street = 0, avenue = 0\<rparr>, heading = north, statusLine = st\<rparr>)
     = \<lparr>street = 0, avenue = 1\<rparr>"
  by (cases d)
     (simp_all add: rotateHeading_right rotateHeading_left handleTurn_def Let_def
      position_moveOneBlock heading_moveOneBlock canMove_def isWithinBounds_def bounds_defs)

text \<open>
  A blocked turn: in the south-east corner facing north, turning right faces east and stays.
\<close>

theorem handleTurn_rotates_then_moves_witness:
  "heading (handleTurn turn_right
       \<lparr>position = \<lparr>street = -25, avenue = 6\<rparr>, heading = north, statusLine = ''''\<rparr>) = east \<and>
   position (handleTurn turn_right
       \<lparr>position = \<lparr>street = -25, avenue = 6\<rparr>, heading = north, statusLine = ''''\<rparr>)
     = \<lparr>street = -25, avenue = 6\<rparr>"
  using handleTurn_rotates_then_moves
    [of north turn_right
        "\<lparr>position = \<lparr>street = -25, avenue = 6\<rparr>, heading = north, statusLine = ''''\<rparr>"]
  by (simp add: isWithinBounds_def bounds_defs)

text \<open>
  C9. From a state within the bounds whose cells ahead and behind are both within the
  bounds, moving forward and then backward, the heading being the same in between, restores
  the position; the vector of the opposite heading is the negation of the heading's vector.
\<close>

theorem forward_backward_cancel:
  assumes "isWithinBounds (position s)"
    and "canMove (position s) (heading s)"
    and "canMove (position s) (oppositeHeading (heading s))"
  shows "position (handleMoveBackward (handleMoveForward s)) = position s \<and>
         heading (handleMoveForward s) = heading s \<and>
         heading (handleMoveBackward (handleMoveForward s)) = heading s \<and>
         headingVectors (oppositeHeading (heading s)) =
           \<lparr>street = - street (headingVectors (heading s)),
            avenue = - avenue (headingVectors (heading s))\<rparr>"
proof -
  have fwd: "position (handleMoveForward s) =
      \<lparr>street = street (position s) + street (headingVectors (heading s)),
       avenue = avenue (position s) + avenue (headingVectors (heading s))\<rparr>"
    and hdg: "heading (handleMoveForward s) = heading s"
    using assms(2)
    by (simp_all add: handleMoveForward_def position_moveOneBlock heading_moveOneBlock)
  have bwd: "canMove (position (handleMoveForward s)) (oppositeHeading (heading s))"
    using assms(1) by (simp add: fwd canMove_def headingVectors_opposite isWithinBounds_def)
  have "position (handleMoveBackward (handleMoveForward s)) = position s"
    using bwd
    by (simp add: handleMoveBackward_def hdg position_moveOneBlock fwd headingVectors_opposite)
  moreover have "heading (handleMoveBackward (handleMoveForward s)) = heading s"
    by (simp add: handleMoveBackward_def Let_def hdg heading_moveOneBlock)
  ultimately show ?thesis
    by (simp add: headingVectors_opposite hdg)
qed

text \<open>The scenario of the origin: forward to (1, 0), backward to (0, 0).\<close>

theorem forward_backward_cancel_witness:
  "isWithinBounds \<lparr>street = 0, avenue = 0\<rparr> \<and>
   canMove \<lparr>street = 0, avenue = 0\<rparr> north \<and>
   canMove \<lparr>street = 0, avenue = 0\<rparr> (oppositeHeading north) \<and>
   position (handleMoveBackward (handleMoveForward
      \<lparr>position = \<lparr>street = 0, avenue = 0\<rparr>, heading = north, statusLine = ''''\<rparr>))
    = \<lparr>street = 0, avenue = 0\<rparr>"
  using forward_backward_cancel
    [of "\<lparr>position = \<lparr>street = 0, avenue = 0\<rparr>, heading = north, statusLine = ''''\<rparr>"]
  by (simp add: isWithinBounds_def canMove_def bounds_defs)


section \<open>Properties of the remainder\<close>

lemma fmod_nonneg: "0 \<le> x \<Longrightarrow> 0 < y \<Longrightarrow> 0 \<le> fmod x y \<and> fmod x y < y"
proof -
  assume x: "0 \<le> x" and y: "0 < y"
  have q: "trunc (x / y) = \<lfloor>x / y\<rfloor>" using x y by (simp add: trunc_def)
  have "y * of_int \<lfloor>x / y\<rfloor> \<le> y * (x / y)"
    using y by (intro mult_left_mono) simp_all
  then have 1: "y * of_int \<lfloor>x / y\<rfloor> \<le> x" using y by simp
  have "x / y < of_int \<lfloor>x / y\<rfloor> + 1" by linarith
  then have "y * (x / y) < y * (of_int \<lfloor>x / y\<rfloor> + 1)"
    using y by (intro mult_strict_left_mono) simp_all
  then have 2: "x < y * (of_int \<lfloor>x / y\<rfloor> + 1)" using y by simp
  show ?thesis using 1 2 by (simp add: fmod_def q algebra_simps)
qed

lemma fmod_abs_360: "fmod \<bar>x\<bar> 360 = \<bar>x\<bar> - 360 * of_int \<lfloor>\<bar>x\<bar> / 360\<rfloor>"
  by (simp add: fmod_def trunc_def)

section \<open>Properties of the rounding\<close>

lemma roundTiesToEven_of_int: "roundTiesToEven (of_int n) = n"
  by (simp add: roundTiesToEven_def)

lemma roundTiesToEven_bounds:
  "of_int (roundTiesToEven r) \<le> r + 1 / 2 \<and> r - 1 / 2 \<le> of_int (roundTiesToEven r)"
  unfolding roundTiesToEven_def Let_def by (auto; linarith)

lemma roundTiesToEven_floor:
  "\<lfloor>r\<rfloor> \<le> roundTiesToEven r \<and> roundTiesToEven r \<le> \<lfloor>r\<rfloor> + 1"
  unfolding roundTiesToEven_def Let_def by auto

lemma roundTiesToEven_mono:
  assumes "r \<le> s"
  shows "roundTiesToEven r \<le> roundTiesToEven s"
proof (cases "\<lfloor>r\<rfloor> = \<lfloor>s\<rfloor>")
  case True
  with assms show ?thesis unfolding roundTiesToEven_def Let_def by auto
next
  case False
  with assms have "\<lfloor>r\<rfloor> + 1 \<le> \<lfloor>s\<rfloor>" using floor_mono[OF assms] by linarith
  with roundTiesToEven_floor[of r] roundTiesToEven_floor[of s] show ?thesis by linarith
qed

lemma roundTiesToEven_uminus: "roundTiesToEven (- r) = - roundTiesToEven r"
proof (cases "r = of_int \<lfloor>r\<rfloor>")
  case True
  then obtain n :: int where "r = of_int n" by blast
  then have "- r = of_int (- n)" by simp
  with \<open>r = of_int n\<close> show ?thesis by (simp only: roundTiesToEven_of_int)
next
  case False
  then have lt: "of_int \<lfloor>r\<rfloor> < r" by linarith
  have "r < of_int \<lfloor>r\<rfloor> + 1" by linarith
  with lt have f: "\<lfloor>- r\<rfloor> = - \<lfloor>r\<rfloor> - 1" by linarith
  show ?thesis unfolding roundTiesToEven_def Let_def f by auto
qed

lemma roundTiesToEven_nonneg: "0 \<le> r \<Longrightarrow> 0 \<le> roundTiesToEven r"
  using roundTiesToEven_mono[of 0 r] roundTiesToEven_of_int[of 0] by simp

lemma scaleDown_spec:
  "1 \<le> x \<Longrightarrow>
     e \<le> scaleDown x e \<and> power_int 2 (scaleDown x e - e) \<le> x \<and>
     x < power_int 2 (scaleDown x e - e + 1)"
proof (induction x e rule: scaleDown.induct)
  case (1 x e)
  show ?case
  proof (cases "x < 2")
    case True
    with 1(2) show ?thesis by (simp add: scaleDown.simps[of x e])
  next
    case False
    then have h: "1 \<le> x / 2" by simp
    let ?s = "scaleDown (x / 2) (e + 1)"
    from 1(1)[OF False h] have ih: "e + 1 \<le> ?s" "power_int 2 (?s - (e + 1)) \<le> x / 2"
      "x / 2 < power_int 2 (?s - (e + 1) + 1)" by simp_all
    have eq: "scaleDown x e = ?s" using False by (simp add: scaleDown.simps[of x e])
    have p: "power_int (2::real) (?s - e) = 2 * power_int 2 (?s - (e + 1))"
      using power_int_add[of "2::real" 1 "?s - (e + 1)"] by (simp add: algebra_simps)
    have q: "power_int (2::real) (?s - e + 1) = 2 * power_int 2 (?s - (e + 1) + 1)"
      using power_int_add[of "2::real" 1 "?s - (e + 1) + 1"] by (simp add: algebra_simps)
    from ih show ?thesis unfolding eq p q by simp
  qed
qed

lemma scaleUp_spec:
  "x < 2 \<Longrightarrow> - 1022 \<le> e \<Longrightarrow>
     - 1022 \<le> scaleUp x e \<and> scaleUp x e \<le> e \<and>
     x * power_int 2 (e - scaleUp x e) < 2 \<and>
     (1 \<le> x * power_int 2 (e - scaleUp x e) \<or> scaleUp x e = - 1022)"
proof (induction x e rule: scaleUp.induct)
  case (1 x e)
  show ?case
  proof (cases "1 \<le> x \<or> e \<le> - 1022")
    case True
    with 1(2,3) show ?thesis by (auto simp add: scaleUp.simps[of x e])
  next
    case False
    then have h: "2 * x < 2" "- 1022 \<le> e - 1" by simp_all
    let ?s = "scaleUp (2 * x) (e - 1)"
    from 1(1)[OF False h] have ih: "- 1022 \<le> ?s" "?s \<le> e - 1"
      "2 * x * power_int 2 (e - 1 - ?s) < 2"
      "1 \<le> 2 * x * power_int 2 (e - 1 - ?s) \<or> ?s = - 1022" by simp_all
    have eq: "scaleUp x e = ?s" using False by (simp add: scaleUp.simps[of x e])
    have p: "power_int (2::real) (e - ?s) = 2 * power_int 2 (e - 1 - ?s)"
      using power_int_add[of "2::real" 1 "e - 1 - ?s"] by (simp add: algebra_simps)
    from ih show ?thesis unfolding eq p by (simp add: algebra_simps)
  qed
qed

lemma exponent_uminus: "exponent (- x) = exponent x"
  by (simp add: exponent_def)

lemma exponent_abs: "exponent \<bar>x\<bar> = exponent x"
  by (simp add: exponent_def)

lemma exponent_spec:
  "- 1022 \<le> exponent x \<and> \<bar>x\<bar> < power_int 2 (exponent x + 1) \<and>
   (power_int 2 (exponent x) \<le> \<bar>x\<bar> \<or> exponent x = - 1022)"
proof (cases "1 \<le> \<bar>x\<bar>")
  case True
  from scaleDown_spec[OF True, of 0] True show ?thesis by (simp add: exponent_def)
next
  case False
  then have lt: "\<bar>x\<bar> < 2" by simp
  let ?s = "scaleUp \<bar>x\<bar> 0"
  from scaleUp_spec[OF lt, of 0] have s: "- 1022 \<le> ?s" "?s \<le> 0"
    "\<bar>x\<bar> * power_int 2 (- ?s) < 2" "1 \<le> \<bar>x\<bar> * power_int 2 (- ?s) \<or> ?s = - 1022"
    by simp_all
  have pos: "0 < power_int (2::real) ?s" by simp
  have inv: "power_int (2::real) (- ?s) = 1 / power_int 2 ?s"
    by (simp add: power_int_minus divide_inverse)
  have p1: "power_int (2::real) (?s + 1) = 2 * power_int 2 ?s"
    using power_int_add[of "2::real" 1 ?s] by (simp add: algebra_simps)
  from s(3) pos have a: "\<bar>x\<bar> < power_int 2 (?s + 1)"
    unfolding inv p1 by (simp add: field_simps)
  from s(4) pos have b: "power_int 2 ?s \<le> \<bar>x\<bar> \<or> ?s = - 1022"
    unfolding inv by (simp add: field_simps)
  from s(1) a b False show ?thesis by (simp add: exponent_def)
qed

lemma exponent_eqI:
  assumes "- 1022 \<le> e" "\<bar>x\<bar> < power_int 2 (e + 1)" "power_int 2 e \<le> \<bar>x\<bar> \<or> e = - 1022"
  shows "exponent x = e"
proof (rule antisym)
  note s = exponent_spec[of x]
  show "exponent x \<le> e"
  proof (rule ccontr)
    assume "\<not> exponent x \<le> e"
    then have gt: "e + 1 \<le> exponent x" by simp
    with assms(1) s have "power_int 2 (exponent x) \<le> \<bar>x\<bar>" by auto
    moreover have "power_int (2::real) (e + 1) \<le> power_int 2 (exponent x)"
      using gt by (intro power_int_increasing) simp_all
    ultimately show False using assms(2) by linarith
  qed
  show "e \<le> exponent x"
  proof (rule ccontr)
    assume "\<not> e \<le> exponent x"
    then have gt: "exponent x + 1 \<le> e" by simp
    with s assms(3) have "power_int 2 e \<le> \<bar>x\<bar>" by auto
    moreover have "power_int (2::real) (exponent x + 1) \<le> power_int 2 e"
      using gt by (intro power_int_increasing) simp_all
    ultimately show False using s by linarith
  qed
qed

lemma exponent_mono:
  assumes "\<bar>x\<bar> \<le> \<bar>y\<bar>"
  shows "exponent x \<le> exponent y"
proof (rule ccontr)
  assume "\<not> exponent x \<le> exponent y"
  then have gt: "exponent y + 1 \<le> exponent x" by simp
  note sx = exponent_spec[of x] and sy = exponent_spec[of y]
  from gt sy sx have "power_int 2 (exponent x) \<le> \<bar>x\<bar>" by auto
  moreover have "power_int (2::real) (exponent y + 1) \<le> power_int 2 (exponent x)"
    using gt by (intro power_int_increasing) simp_all
  ultimately show False using sy assms by linarith
qed

lemma round_double_uminus: "round_double (- x) = - round_double x"
  by (simp add: round_double_def Let_def exponent_uminus roundTiesToEven_uminus)

lemma round_double_nonneg:
  assumes "0 \<le> x"
  shows "0 \<le> round_double x"
proof -
  have "0 \<le> x / power_int 2 (exponent x - 52)" using assms by simp
  from roundTiesToEven_nonneg[OF this] show ?thesis
    by (simp add: round_double_def Let_def)
qed

lemma power_int_2_split:
  "power_int (2::real) (e + 1) = power_int 2 (e - 52) * 2 ^ 53"
  "power_int (2::real) e = power_int 2 (e - 52) * 2 ^ 52"
  using power_int_add[of "2::real" "e - 52" 53] power_int_add[of "2::real" "e - 52" 52]
  by (simp_all add: algebra_simps)

lemma round_double_upper:
  assumes "0 \<le> x"
  shows "round_double x \<le> power_int 2 (exponent x + 1)"
proof -
  let ?u = "power_int (2::real) (exponent x - 52)"
  have u: "0 < ?u" by simp
  note p = power_int_2_split(1)[of "exponent x"]
  from exponent_spec[of x] assms have "x < ?u * 2 ^ 53"
    by (simp add: p)
  with u have "x / ?u \<le> of_int (2 ^ 53)" by (simp add: field_simps)
  from roundTiesToEven_mono[OF this] have "roundTiesToEven (x / ?u) \<le> 2 ^ 53"
    by (simp only: roundTiesToEven_of_int)
  then have "(of_int (roundTiesToEven (x / ?u)) :: real) \<le> of_int (2 ^ 53)"
    by (simp only: of_int_le_iff)
  with u have "?u * of_int (roundTiesToEven (x / ?u)) \<le> ?u * 2 ^ 53"
    by simp
  then show ?thesis unfolding round_double_def Let_def by (simp only: p)
qed

lemma round_double_lower:
  assumes "power_int 2 (exponent x) \<le> x"
  shows "power_int 2 (exponent x) \<le> round_double x"
proof -
  let ?u = "power_int (2::real) (exponent x - 52)"
  have u: "0 < ?u" by simp
  note p = power_int_2_split(2)[of "exponent x"]
  from assms have "?u * 2 ^ 52 \<le> x" by (simp only: p)
  with u have "of_int (2 ^ 52) \<le> x / ?u" by (simp add: field_simps)
  from roundTiesToEven_mono[OF this] have "2 ^ 52 \<le> roundTiesToEven (x / ?u)"
    by (simp only: roundTiesToEven_of_int)
  then have "(of_int (2 ^ 52) :: real) \<le> of_int (roundTiesToEven (x / ?u))"
    by (simp only: of_int_le_iff)
  with u have "?u * 2 ^ 52 \<le> ?u * of_int (roundTiesToEven (x / ?u))"
    by simp
  then show ?thesis unfolding round_double_def Let_def by (simp only: p)
qed

lemma round_double_mono_nonneg:
  assumes "0 \<le> x" "x \<le> y"
  shows "round_double x \<le> round_double y"
proof (cases "exponent x = exponent y")
  case True
  let ?u = "power_int (2::real) (exponent y - 52)"
  have u: "0 < ?u" by simp
  from assms(2) u have "x / ?u \<le> y / ?u" by (simp add: divide_right_mono)
  from roundTiesToEven_mono[OF this]
  have "(of_int (roundTiesToEven (x / ?u)) :: real) \<le> of_int (roundTiesToEven (y / ?u))"
    by (simp only: of_int_le_iff)
  with u show ?thesis by (simp add: round_double_def Let_def True)
next
  case False
  from assms have "\<bar>x\<bar> \<le> \<bar>y\<bar>" by simp
  from exponent_mono[OF this] False have lt: "exponent x + 1 \<le> exponent y" by simp
  from exponent_spec[of x] lt have "exponent y \<noteq> - 1022" by linarith
  with exponent_spec[of y] assms have "power_int 2 (exponent y) \<le> y" by simp
  from round_double_lower[OF this] have "power_int 2 (exponent y) \<le> round_double y" .
  moreover have "power_int (2::real) (exponent x + 1) \<le> power_int 2 (exponent y)"
    using lt by (intro power_int_increasing) simp_all
  moreover note round_double_upper[OF assms(1)]
  ultimately show ?thesis by linarith
qed

lemma round_double_mono:
  assumes "x \<le> y"
  shows "round_double x \<le> round_double y"
proof (cases "0 \<le> x")
  case True
  from round_double_mono_nonneg[OF True assms] show ?thesis .
next
  case neg: False
  show ?thesis
  proof (cases "0 \<le> y")
    case True
    from neg have "0 \<le> - x" by simp
    from round_double_nonneg[OF this] have "round_double x \<le> 0"
      by (simp add: round_double_uminus)
    with round_double_nonneg[OF True] show ?thesis by linarith
  next
    case False
    then have "0 \<le> - y" "- y \<le> - x" using assms by simp_all
    from round_double_mono_nonneg[OF this] show ?thesis by (simp add: round_double_uminus)
  qed
qed

lemma round_double_representable:
  assumes "exponent (of_int m * power_int 2 k) - 52 \<le> k"
  shows "round_double (of_int m * power_int 2 k) = of_int m * power_int 2 k"
proof -
  define x where "x = of_int m * power_int (2::real) k"
  define j where "j = exponent x - 52"
  define u where "u = power_int (2::real) j"
  define n where "n = nat (k - j)"
  have k: "k = j + int n" using assms by (simp add: n_def j_def x_def)
  have u: "0 < u" by (simp add: u_def)
  have pk: "power_int (2::real) k = u * 2 ^ n"
    unfolding k u_def using power_int_add[of "2::real" j "int n"] by simp
  have xu: "x = u * of_int (m * 2 ^ n)" by (simp add: x_def pk)
  have "x / u = of_int (m * 2 ^ n)" using u by (simp add: xu)
  then have "roundTiesToEven (x / u) = m * 2 ^ n"
    by (simp only: roundTiesToEven_of_int)
  then have "round_double x = u * of_int (m * 2 ^ n)"
    unfolding round_double_def Let_def u_def j_def by (rule arg_cong)
  with xu have "round_double x = x" by (simp only:)
  then show ?thesis by (simp only: x_def)
qed

lemma round_double_of_int:
  assumes "\<bar>n\<bar> < 2 ^ 53"
  shows "round_double (of_int n) = of_int n"
proof -
  have e: "exponent (of_int n) \<le> 52"
  proof (rule ccontr)
    assume "\<not> exponent (of_int n) \<le> 52"
    then have ge: "53 \<le> exponent (of_int n)" by simp
    then have "power_int (2::real) 53 \<le> power_int 2 (exponent (of_int n))"
      by (intro power_int_increasing) simp_all
    moreover from exponent_spec[of "of_int n"] ge
    have "power_int 2 (exponent (of_int n)) \<le> \<bar>of_int n :: real\<bar>" by auto
    moreover have "\<bar>of_int n :: real\<bar> < 2 ^ 53"
      using assms by (metis of_int_abs of_int_less_numeral_power_cancel_iff)
    ultimately show False by simp
  qed
  from round_double_representable[of n 0] e show ?thesis by simp
qed

lemma round_double_numeral [simp]:
  "numeral w < (2::int) ^ 53 \<Longrightarrow> round_double (numeral w) = numeral w"
  "numeral w < (2::int) ^ 53 \<Longrightarrow> round_double (- numeral w) = - numeral w"
  "round_double 0 = 0"
  "round_double 1 = 1"
proof -
  show "numeral w < (2::int) ^ 53 \<Longrightarrow> round_double (numeral w) = numeral w"
    using round_double_of_int[of "numeral w"] by (simp only: of_int_numeral abs_numeral)
  show "numeral w < (2::int) ^ 53 \<Longrightarrow> round_double (- numeral w) = - numeral w"
    using round_double_of_int[of "- numeral w"]
    by (simp only: of_int_numeral of_int_minus abs_numeral abs_minus_cancel)
  show "round_double 0 = 0" using round_double_of_int[of 0] by simp
  show "round_double 1 = 1" using round_double_of_int[of 1] by simp
qed

lemma round_double_abs_le:
  assumes "\<bar>x\<bar> \<le> of_int n" "n < 2 ^ 53"
  shows "\<bar>round_double x\<bar> \<le> of_int n"
proof -
  have "(0::real) \<le> of_int n" using assms(1) by linarith
  then have n0: "0 \<le> n" by simp
  with assms(2) have a: "\<bar>n\<bar> < 2 ^ 53" "\<bar>- n\<bar> < 2 ^ 53" by simp_all
  from assms(1) have "x \<le> of_int n" "of_int (- n) \<le> x" by simp_all
  from round_double_mono[OF this(1)] round_double_mono[OF this(2)]
  have "round_double x \<le> of_int n" "of_int (- n) \<le> round_double x"
    by (simp_all only: round_double_of_int[OF a(1)] round_double_of_int[OF a(2)])
  then show ?thesis by simp
qed

lemma MAX_VALUE_large: "2 ^ 53 < MAX_VALUE"
  by (simp add: MAX_VALUE_def)

lemma fl_Finite:
  assumes "\<bar>x\<bar> \<le> of_int n" "n < 2 ^ 53"
  shows "fl x = Finite (round_double x)"
proof -
  have "(of_int n :: real) < 2 ^ 53" using assms(2)
    by (metis of_int_less_numeral_power_cancel_iff)
  with round_double_abs_le[OF assms] MAX_VALUE_large
  have "\<bar>round_double x\<bar> < MAX_VALUE" by linarith
  then have "\<not> MAX_VALUE < round_double x" "\<not> round_double x < - MAX_VALUE" by linarith+
  then show ?thesis by (simp add: fl_def Let_def)
qed

lemma round_double_eval:
  assumes "- 1022 \<le> e" "\<bar>x\<bar> < power_int 2 (e + 1)" "power_int 2 e \<le> \<bar>x\<bar>"
  shows "round_double x =
           power_int 2 (e - 52) * of_int (roundTiesToEven (x / power_int 2 (e - 52)))"
  using exponent_eqI[OF assms(1,2)] assms(3) by (simp add: round_double_def Let_def)

lemma round_double_pow_1023: "round_double (2 ^ 1023) = 2 ^ 1023"
proof -
  have e: "exponent (of_int 1 * power_int 2 1023) = 1023"
    by (rule exponent_eqI) simp_all
  from round_double_representable[of 1 1023] e show ?thesis by simp
qed

lemma round_double_no_overflow:
  assumes "\<bar>x\<bar> \<le> 2 ^ 1023"
  shows "\<bar>round_double x\<bar> \<le> MAX_VALUE"
proof -
  from assms have "x \<le> 2 ^ 1023" "- (2 ^ 1023) \<le> x" by simp_all
  from round_double_mono[OF this(1)] round_double_mono[OF this(2)]
  have "round_double x \<le> 2 ^ 1023" "- (2 ^ 1023) \<le> round_double x"
    by (simp_all only: round_double_pow_1023 round_double_uminus)
  moreover have "(2::real) ^ 1023 \<le> MAX_VALUE" by (simp add: MAX_VALUE_def)
  ultimately show ?thesis by linarith
qed

text \<open>
  On whole numbers below \<open>2^52\<close> in magnitude, such as the millisecond clock, the
  subtraction of doubles is the exact one.
\<close>

lemma clock_subtraction_exact:
  assumes "\<bar>i\<bar> < 2 ^ 52" "\<bar>j\<bar> < 2 ^ 52"
  shows "fl_sub (Finite (of_int i)) (Finite (of_int j)) =
         js_sub (Finite (of_int i)) (Finite (of_int j))"
proof -
  have small: "\<bar>i - j\<bar> < 2 ^ 53" using assms by simp
  have r: "round_double (of_int (i - j)) = of_int (i - j)"
    by (rule round_double_of_int[OF small])
  have "\<bar>of_int (i - j) :: real\<bar> < 2 ^ 53"
    using small by (metis of_int_abs of_int_less_numeral_power_cancel_iff)
  with MAX_VALUE_large have "\<bar>of_int (i - j) :: real\<bar> < MAX_VALUE" by linarith
  then have "\<not> MAX_VALUE < of_int (i - j)" "\<not> (of_int (i - j) :: real) < - MAX_VALUE"
    by linarith+
  then have "fl (of_int (i - j)) = Finite (of_int (i - j))"
    by (simp add: fl_def Let_def r del: of_int_diff)
  then show ?thesis by (simp add: fl_sub_def js_sub_def)
qed

section \<open>Properties of the bearing difference\<close>

lemma fl_sub_Finite:
  "fl_sub (Finite a) (Finite b) =
     (if \<bar>round_double (a - b)\<bar> \<le> MAX_VALUE then Finite (round_double (a - b))
      else if 0 < round_double (a - b) then PosInfinity else NegInfinity)"
proof -
  have "0 < MAX_VALUE" using MAX_VALUE_large by (smt (verit) zero_less_power)
  then show ?thesis by (auto simp add: fl_sub_def fl_def Let_def)
qed

lemma fold_back:
  assumes "0 \<le> m" "m < 360"
  shows "fl_sub (Finite 360) (Finite m) = Finite (round_double (360 - m))"
    and "180 < m \<Longrightarrow> round_double (360 - m) \<le> 180 \<and> 0 \<le> round_double (360 - m)"
    and "m \<le> 180 \<Longrightarrow> 180 \<le> round_double (360 - m)"
proof -
  have "\<bar>360 - m\<bar> \<le> of_int 360" using assms by simp
  from fl_Finite[OF this] show "fl_sub (Finite 360) (Finite m) = Finite (round_double (360 - m))"
    by (simp add: fl_sub_def)
  show "round_double (360 - m) \<le> 180 \<and> 0 \<le> round_double (360 - m)" if "180 < m"
    using round_double_mono[of "360 - m" 180] round_double_nonneg[of "360 - m"] that assms
    by simp
  show "180 \<le> round_double (360 - m)" if "m \<le> 180"
    using round_double_mono[of 180 "360 - m"] that by simp
qed

lemma normalizeBearingDifference_Finite:
  assumes "\<bar>round_double (a - b)\<bar> \<le> MAX_VALUE"
  shows "normalizeBearingDifference (Finite a) (Finite b) =
           Finite (min (fmod \<bar>round_double (a - b)\<bar> 360)
                       (round_double (360 - fmod \<bar>round_double (a - b)\<bar> 360)))"
proof -
  define m where "m = fmod \<bar>round_double (a - b)\<bar> 360"
  have m: "0 \<le> m" "m < 360" using fmod_nonneg[of "\<bar>round_double (a - b)\<bar>" 360]
    by (simp_all add: m_def)
  have d: "js_rem (js_abs (fl_sub (Finite a) (Finite b))) (Finite 360) = Finite m"
    using assms by (simp add: fl_sub_Finite m_def)
  show ?thesis
  proof (cases "180 < m")
    case True
    with fold_back(1,2)[OF m] show ?thesis
      unfolding normalizeBearingDifference_def Let_def d m_def[symmetric]
      by (simp add: min_def)
  next
    case False
    with fold_back(3)[OF m] show ?thesis
      unfolding normalizeBearingDifference_def Let_def d m_def[symmetric]
      by (simp add: min_def)
  qed
qed

lemma normalizeBearingDifference_overflow:
  assumes "\<not> \<bar>round_double (a - b)\<bar> \<le> MAX_VALUE"
  shows "normalizeBearingDifference (Finite a) (Finite b) = NaN"
  using assms by (simp add: normalizeBearingDifference_def Let_def fl_sub_Finite)

lemma normalizeBearingDifference_range:
  "normalizeBearingDifference a b = NaN \<or>
   (\<exists>x. normalizeBearingDifference a b = Finite x \<and> 0 \<le> x \<and> x \<le> 180)"
proof (cases "\<exists>x y. a = Finite x \<and> b = Finite y")
  case True
  then obtain x y where xy: "a = Finite x" "b = Finite y" by blast
  show ?thesis
  proof (cases "\<bar>round_double (x - y)\<bar> \<le> MAX_VALUE")
    case ok: True
    define m where "m = fmod \<bar>round_double (x - y)\<bar> 360"
    have m: "0 \<le> m" "m < 360" using fmod_nonneg[of "\<bar>round_double (x - y)\<bar>" 360]
      by (simp_all add: m_def)
    from fold_back(2,3)[OF m] m
    have "0 \<le> min m (round_double (360 - m)) \<and> min m (round_double (360 - m)) \<le> 180"
      by (cases "180 < m") (auto simp: min_def)
    then show ?thesis
      unfolding xy normalizeBearingDifference_Finite[OF ok] m_def[symmetric] by simp
  next
    case False
    from normalizeBearingDifference_overflow[OF this] show ?thesis by (simp add: xy)
  qed
next
  case False
  then have "normalizeBearingDifference a b = NaN"
    by (cases a; cases b) (simp_all add: normalizeBearingDifference_def fl_sub_def Let_def)
  then show ?thesis by simp
qed

lemma normalizeBearingDifference_not_NegInfinity:
  "normalizeBearingDifference a b \<noteq> NegInfinity"
  using normalizeBearingDifference_range[of a b] by auto

lemma fmod_of_int_360:
  assumes "0 \<le> n"
  shows "fmod (of_int n) 360 = of_int (n mod 360)"
proof -
  have "\<lfloor>(of_int n :: real) / 360\<rfloor> = n div 360"
    using floor_divide_of_int_eq[of n 360, where ?'a = real] by simp
  moreover have "n mod 360 = n - 360 * (n div 360)" by (simp add: minus_mult_div_eq_mod)
  ultimately show ?thesis using assms by (simp add: fmod_def trunc_def)
qed

lemma normalizeBearingDifference_of_int:
  assumes "\<bar>i\<bar> < 2 ^ 52" "\<bar>j\<bar> < 2 ^ 52"
  shows "normalizeBearingDifference (Finite (of_int i)) (Finite (of_int j)) =
           Finite (of_int (min (\<bar>i - j\<bar> mod 360) (360 - \<bar>i - j\<bar> mod 360)))"
proof -
  have small: "\<bar>i - j\<bar> < 2 ^ 53" using assms by simp
  have d: "round_double (of_int i - of_int j) = of_int (i - j)"
    using round_double_of_int[OF small] by simp
  have "(2::real) ^ 53 \<le> MAX_VALUE" using MAX_VALUE_large by simp
  moreover have "\<bar>of_int (i - j) :: real\<bar> < 2 ^ 53"
    using small by (metis of_int_abs of_int_less_numeral_power_cancel_iff)
  ultimately have ok: "\<bar>round_double (of_int i - of_int j)\<bar> \<le> MAX_VALUE"
    unfolding d by linarith
  define m where "m = \<bar>i - j\<bar> mod 360"
  have m: "0 \<le> m" "m < 360" by (simp_all add: m_def)
  have f: "fmod \<bar>of_int (i - j)\<bar> 360 = of_int m"
    using fmod_of_int_360[of "\<bar>i - j\<bar>"] by (simp add: m_def)
  have "\<bar>360 - m\<bar> < 2 ^ 53" using m by simp
  from round_double_of_int[OF this] have r: "round_double (360 - of_int m) = of_int (360 - m)"
    by simp
  show ?thesis
    unfolding normalizeBearingDifference_Finite[OF ok] d f r m_def[symmetric]
    by (simp add: min_def)
qed

text \<open>
  C5. For all angles \<open>a\<close> and \<open>b\<close> in degrees, the bearing difference is
  \<open>min (m, 360 - m)\<close> where \<open>m\<close> is \<open>|a - b|\<close> modulo 360, the two subtractions being those of
  doubles, which round. The difference \<open>a - b\<close> does not overflow unless \<open>|a - b|\<close> exceeds
  \<open>2^1023\<close>; when it does overflow the result is NaN. For whole numbers of degrees nothing
  is rounded, and the result is \<open>min (m, 360 - m)\<close> in integer arithmetic. The difference of
  10 and 350 is 20, and the difference of 0 and 180 is 180.
\<close>

theorem normalizeBearingDifference_formula:
  "normalizeBearingDifference (Finite a) (Finite b) =
     (let d = round_double (a - b);
          m = \<bar>d\<bar> - 360 * of_int \<lfloor>\<bar>d\<bar> / 360\<rfloor>
      in if \<bar>d\<bar> \<le> MAX_VALUE then Finite (min m (round_double (360 - m))) else NaN) \<and>
   (\<bar>a - b\<bar> \<le> 2 ^ 1023 \<longrightarrow> \<bar>round_double (a - b)\<bar> \<le> MAX_VALUE) \<and>
   (\<forall>i j :: int. \<bar>i\<bar> < 2 ^ 52 \<and> \<bar>j\<bar> < 2 ^ 52 \<longrightarrow>
      normalizeBearingDifference (Finite (of_int i)) (Finite (of_int j)) =
        Finite (of_int (min (\<bar>i - j\<bar> mod 360) (360 - \<bar>i - j\<bar> mod 360)))) \<and>
   normalizeBearingDifference (Finite 10) (Finite 350) = Finite 20 \<and>
   normalizeBearingDifference (Finite 0) (Finite 180) = Finite 180"
proof -
  have main: "normalizeBearingDifference (Finite a) (Finite b) =
     (let d = round_double (a - b);
          m = \<bar>d\<bar> - 360 * of_int \<lfloor>\<bar>d\<bar> / 360\<rfloor>
      in if \<bar>d\<bar> \<le> MAX_VALUE then Finite (min m (round_double (360 - m))) else NaN)"
  proof (cases "\<bar>round_double (a - b)\<bar> \<le> MAX_VALUE")
    case True
    from normalizeBearingDifference_Finite[OF True] True show ?thesis
      by (simp only: Let_def fmod_abs_360 if_True)
  next
    case False
    from normalizeBearingDifference_overflow[OF False] False show ?thesis
      by (simp only: Let_def if_False)
  qed
  have range: "\<bar>a - b\<bar> \<le> 2 ^ 1023 \<longrightarrow> \<bar>round_double (a - b)\<bar> \<le> MAX_VALUE"
    using round_double_no_overflow by blast
  have whole: "\<forall>i j :: int. \<bar>i\<bar> < 2 ^ 52 \<and> \<bar>j\<bar> < 2 ^ 52 \<longrightarrow>
      normalizeBearingDifference (Finite (of_int i)) (Finite (of_int j)) =
        Finite (of_int (min (\<bar>i - j\<bar> mod 360) (360 - \<bar>i - j\<bar> mod 360)))"
    using normalizeBearingDifference_of_int by blast
  have e1: "normalizeBearingDifference (Finite 10) (Finite 350) = Finite 20"
    using normalizeBearingDifference_of_int[of 10 350] by simp
  have e2: "normalizeBearingDifference (Finite 0) (Finite 180) = Finite 180"
    using normalizeBearingDifference_of_int[of 0 180] by simp
  from main range whole e1 e2 show ?thesis by (intro conjI)
qed

text \<open>
  The doubles nearest to 359.9 and to 0.1: their difference rounds to 359.79999999999995, and
  the bearing difference is the double 0.20000000000004547, where exact subtraction would give
  0.2000000000000227.
\<close>

theorem normalizeBearingDifference_formula_witness:
  "\<bar>3165713878692659 / 8796093022208 - 3602879701896397 / 36028797018963968 :: real\<bar> \<le> 2 ^ 1023 \<and>
   round_double (3165713878692659 / 8796093022208 - 3602879701896397 / 36028797018963968) =
     1582417134695219 / 4398046511104 \<and>
   normalizeBearingDifference (Finite (3165713878692659 / 8796093022208))
       (Finite (3602879701896397 / 36028797018963968)) =
     Finite (879609302221 / 4398046511104)"
proof -
  let ?a = "3165713878692659 / 8796093022208 :: real"
  let ?b = "3602879701896397 / 36028797018963968 :: real"
  have small: "\<bar>?a - ?b\<bar> \<le> 2 ^ 1023" by simp
  have d: "round_double (?a - ?b) = 1582417134695219 / 4398046511104"
    by (subst round_double_eval[where e = 8]) (simp_all add: roundTiesToEven_def Let_def)
  have r: "round_double (879609302221 / 4398046511104) = 879609302221 / 4398046511104"
    by (subst round_double_eval[where e = "- 3"]) (simp_all add: roundTiesToEven_def Let_def)
  from normalizeBearingDifference_formula[of ?a ?b, THEN conjunct1]
    normalizeBearingDifference_formula[of ?a ?b, THEN conjunct2, THEN conjunct1] small
  have "normalizeBearingDifference (Finite ?a) (Finite ?b) =
     (let d = round_double (?a - ?b);
          m = \<bar>d\<bar> - 360 * of_int \<lfloor>\<bar>d\<bar> / 360\<rfloor>
      in Finite (min m (round_double (360 - m))))"
    by (simp only: Let_def) simp
  also have "\<dots> = Finite (879609302221 / 4398046511104)"
    unfolding d Let_def by (simp add: r)
  finally show ?thesis using small d by simp
qed

section \<open>Properties of the frame selection\<close>

lemma js_less_Finite_iff:
  "d \<noteq> NegInfinity \<Longrightarrow> js_less d (Finite m) \<longleftrightarrow> (\<exists>x. d = Finite x \<and> x < m)"
  by (cases d) simp_all

lemma js_less_PosInfinity_iff:
  "d \<noteq> NegInfinity \<Longrightarrow> js_less d PosInfinity \<longleftrightarrow> (\<exists>x. d = Finite x)"
  by (cases d) simp_all

lemma scanBest_spec:
  assumes "\<forall>c\<in>set cs. diff c \<noteq> NegInfinity"
    and "best = PosInfinity \<or> (\<exists>m0. best = Finite m0)"
  shows "(scanBest cs i (best, k) = (best, k) \<and> (\<forall>c\<in>set cs. \<not> js_less (diff c) best))
       \<or> (\<exists>n m. n < length cs \<and> scanBest cs i (best, k) = (Finite m, i + int n) \<and>
             diff (cs ! n) = Finite m \<and> js_less (Finite m) best \<and>
             (\<forall>j<length cs. \<forall>x. diff (cs ! j) = Finite x \<longrightarrow> m \<le> x) \<and>
             (\<forall>j<n. \<forall>x. diff (cs ! j) = Finite x \<longrightarrow> m < x))"
  using assms
proof (induction cs arbitrary: i best k)
  case Nil
  then show ?case by simp
next
  case (Cons c rest)
  have nn: "diff c \<noteq> NegInfinity" and rest_nn: "\<forall>c\<in>set rest. diff c \<noteq> NegInfinity"
    using Cons.prems(1) by simp_all
  show ?case
  proof (cases "js_less (diff c) best")
    case True
    then obtain m1 where m1: "diff c = Finite m1"
      using nn Cons.prems(2) by (auto simp: js_less_Finite_iff js_less_PosInfinity_iff)
    have step: "scanBest (c # rest) i (best, k) = scanBest rest (i + 1) (Finite m1, i)"
      using True m1 by simp
    from Cons.IH[OF rest_nn, of "Finite m1" "i + 1" i]
    consider (stay) "scanBest rest (i + 1) (Finite m1, i) = (Finite m1, i)"
        "\<forall>c\<in>set rest. \<not> js_less (diff c) (Finite m1)"
      | (improve) n m where "n < length rest"
        "scanBest rest (i + 1) (Finite m1, i) = (Finite m, i + 1 + int n)"
        "diff (rest ! n) = Finite m" "js_less (Finite m) (Finite m1)"
        "\<forall>j<length rest. \<forall>x. diff (rest ! j) = Finite x \<longrightarrow> m \<le> x"
        "\<forall>j<n. \<forall>x. diff (rest ! j) = Finite x \<longrightarrow> m < x"
      by auto
    then show ?thesis
    proof cases
      case stay
      have later: "\<forall>j<length rest. \<forall>x. diff (rest ! j) = Finite x \<longrightarrow> m1 \<le> x"
      proof (intro allI impI)
        fix j x assume j: "j < length rest" and x: "diff (rest ! j) = Finite x"
        from j have "rest ! j \<in> set rest" by simp
        with stay(2) have "\<not> js_less (diff (rest ! j)) (Finite m1)" by blast
        with x show "m1 \<le> x" by simp
      qed
      have "0 < length (c # rest) \<and> scanBest (c # rest) i (best, k) = (Finite m1, i + int 0) \<and>
            diff ((c # rest) ! 0) = Finite m1 \<and> js_less (Finite m1) best \<and>
            (\<forall>j<length (c # rest). \<forall>x. diff ((c # rest) ! j) = Finite x \<longrightarrow> m1 \<le> x) \<and>
            (\<forall>j<0. \<forall>x. diff ((c # rest) ! j) = Finite x \<longrightarrow> m1 < x)"
        using step stay(1) m1 True later by (simp add: All_less_Suc2)
      then show ?thesis by blast
    next
      case improve
      have lt: "m < m1" using improve(4) by simp
      have less_best: "js_less (Finite m) best"
        using True m1 lt Cons.prems(2) by auto
      have "Suc n < length (c # rest) \<and>
            scanBest (c # rest) i (best, k) = (Finite m, i + int (Suc n)) \<and>
            diff ((c # rest) ! Suc n) = Finite m \<and> js_less (Finite m) best \<and>
            (\<forall>j<length (c # rest). \<forall>x. diff ((c # rest) ! j) = Finite x \<longrightarrow> m \<le> x) \<and>
            (\<forall>j<Suc n. \<forall>x. diff ((c # rest) ! j) = Finite x \<longrightarrow> m < x)"
        using step improve m1 lt less_best by (simp add: All_less_Suc2)
      then show ?thesis by blast
    qed
  next
    case False
    have step: "scanBest (c # rest) i (best, k) = scanBest rest (i + 1) (best, k)"
      using False by simp
    from Cons.IH[OF rest_nn Cons.prems(2), of "i + 1" k]
    consider (stay) "scanBest rest (i + 1) (best, k) = (best, k)"
        "\<forall>c\<in>set rest. \<not> js_less (diff c) best"
      | (improve) n m where "n < length rest"
        "scanBest rest (i + 1) (best, k) = (Finite m, i + 1 + int n)"
        "diff (rest ! n) = Finite m" "js_less (Finite m) best"
        "\<forall>j<length rest. \<forall>x. diff (rest ! j) = Finite x \<longrightarrow> m \<le> x"
        "\<forall>j<n. \<forall>x. diff (rest ! j) = Finite x \<longrightarrow> m < x"
      by auto
    then show ?thesis
    proof cases
      case stay
      then show ?thesis using step False by simp
    next
      case improve
      have head: "\<forall>x. diff c = Finite x \<longrightarrow> m < x"
        using False improve(4) Cons.prems(2) by auto
      have "Suc n < length (c # rest) \<and>
            scanBest (c # rest) i (best, k) = (Finite m, i + int (Suc n)) \<and>
            diff ((c # rest) ! Suc n) = Finite m \<and> js_less (Finite m) best \<and>
            (\<forall>j<length (c # rest). \<forall>x. diff ((c # rest) ! j) = Finite x \<longrightarrow> m \<le> x) \<and>
            (\<forall>j<Suc n. \<forall>x. diff ((c # rest) ! j) = Finite x \<longrightarrow> m < x)"
        using step improve head by (simp add: All_less_Suc2 less_imp_le)
      then show ?thesis by blast
    qed
  qed
qed

lemma collectCandidates_map_filter:
  "collectCandidates nb imgs acc = acc @ List.map_filter (candidateOf nb) imgs"
  by (induction imgs arbitrary: acc)
     (simp_all add: candidateOf_def split: option.splits)

lemma pickThumb_spec: "pickThumb im = spec_thumbnail im"
  by (simp add: pickThumb_def string_field_def spec_thumbnail_def thumbKeys_def
      List.map_filter_simps split: option.splits json.splits)

lemma candidateOf_spec:
  "candidateOf nb im =
     (if spec_listed im
      then Some \<lparr>frame = spec_frame im,
                 diff = (case nb of None \<Rightarrow> PosInfinity | Some b \<Rightarrow> spec_difference b im)\<rparr>
      else None)"
  by (simp add: candidateOf_def pickThumb_spec spec_listed_def makeCandidate_def spec_frame_def
      spec_difference_def string_field_def number_field_def Let_def
      split: option.splits json.splits)

lemma candidates_spec:
  "List.map_filter (candidateOf nb) imgs =
     map (\<lambda>im. \<lparr>frame = spec_frame im,
                 diff = (case nb of None \<Rightarrow> PosInfinity | Some b \<Rightarrow> spec_difference b im)\<rparr>)
         (filter spec_listed imgs)"
  by (induction imgs) (simp_all add: List.map_filter_simps candidateOf_spec)

lemma spec_difference_not_NegInfinity: "spec_difference b im \<noteq> NegInfinity"
  by (simp add: spec_difference_def normalizeBearingDifference_not_NegInfinity
      split: option.splits json.splits)

lemma not_usable_not_listed: "\<not> spec_usable im \<Longrightarrow> \<not> spec_listed im"
  by (auto simp add: spec_usable_def spec_listed_def spec_thumbnail_def thumbKeys_def
      List.map_filter_simps split: option.splits json.splits list.splits)

lemma selectPayload_nonempty:
  assumes "List.map_filter (candidateOf nb) imgs \<noteq> []"
  shows "selectPayload nb imgs =
     \<lparr>images = map frame (List.map_filter (candidateOf nb) imgs),
      preferredIndex =
        min (max (if nb \<noteq> None
                  then snd (scanBest (List.map_filter (candidateOf nb) imgs) 0 (PosInfinity, 0))
                  else 0) 0)
            (int (length (List.map_filter (candidateOf nb) imgs)) - 1)\<rparr>"
proof -
  have "imgs \<noteq> []" using assms by auto
  then show ?thesis
    using assms by (simp add: selectPayload_def collectCandidates_map_filter Let_def)
qed

lemma selectPayload_empty:
  assumes "List.map_filter (candidateOf nb) imgs = []"
  shows "selectPayload nb imgs = emptyPayload"
  using assms by (simp add: selectPayload_def collectCandidates_map_filter Let_def)

lemma selectPayload_frames:
  "images (selectPayload nb imgs) = map spec_frame (filter spec_listed imgs)"
proof (cases "List.map_filter (candidateOf nb) imgs = []")
  case True
  from selectPayload_empty[OF True] True show ?thesis
    by (simp add: emptyPayload_def candidates_spec)
next
  case False
  from selectPayload_nonempty[OF False] show ?thesis
    by (simp add: candidates_spec comp_def)
qed

lemma selectPayload_None_index: "preferredIndex (selectPayload None imgs) = 0"
proof (cases "List.map_filter (candidateOf None) imgs = []")
  case True
  then show ?thesis by (simp add: selectPayload_empty emptyPayload_def)
next
  case False
  then have "0 < length (List.map_filter (candidateOf None) imgs)" by simp
  then show ?thesis using False by (simp add: selectPayload_nonempty)
qed

lemma selectPayload_index:
  assumes ds: "ds = map (spec_difference b) (filter spec_listed imgs)"
    and p: "p = selectPayload (Some b) imgs"
  shows "(ds \<noteq> [] \<longrightarrow> 0 \<le> preferredIndex p \<and> preferredIndex p < int (length ds)) \<and>
         (ds = [] \<longrightarrow> preferredIndex p = 0) \<and>
         ((\<exists>d\<in>set ds. isFinite d) \<longrightarrow>
            (\<exists>m. ds ! nat (preferredIndex p) = Finite m \<and>
                 (\<forall>j<length ds. \<forall>x. ds ! j = Finite x \<longrightarrow> m \<le> x) \<and>
                 (\<forall>j<nat (preferredIndex p). \<forall>x. ds ! j = Finite x \<longrightarrow> m < x))) \<and>
         ((\<forall>d\<in>set ds. \<not> isFinite d) \<longrightarrow> preferredIndex p = 0)"
proof -
  define cs where "cs = List.map_filter (candidateOf (Some b)) imgs"
  have dcs: "map diff cs = ds"
    unfolding cs_def ds by (simp add: candidates_spec comp_def)
  then have len: "length cs = length ds" by (metis length_map)
  have nth: "diff (cs ! j) = ds ! j" if "j < length ds" for j
    using that dcs len by (metis nth_map)
  have nn: "\<forall>c\<in>set cs. diff c \<noteq> NegInfinity"
  proof
    fix c assume "c \<in> set cs"
    then have "diff c \<in> set ds" using dcs by (metis image_eqI set_map)
    then obtain im where "diff c = spec_difference b im" unfolding ds by auto
    then show "diff c \<noteq> NegInfinity"
      by (simp add: spec_difference_not_NegInfinity)
  qed
  have empty: "preferredIndex p = 0" if "cs = []"
    using that p by (simp add: cs_def selectPayload_empty emptyPayload_def)
  have idx: "cs \<noteq> [] \<Longrightarrow>
      preferredIndex p = min (max (snd (scanBest cs 0 (PosInfinity, 0))) 0) (int (length cs) - 1)"
    using p by (simp add: cs_def selectPayload_nonempty)
  from scanBest_spec[OF nn, of PosInfinity 0 0]
  consider (stay) "scanBest cs 0 (PosInfinity, 0) = (PosInfinity, 0)"
      "\<forall>c\<in>set cs. \<not> js_less (diff c) PosInfinity"
    | (improve) n m where "n < length cs"
      "scanBest cs 0 (PosInfinity, 0) = (Finite m, int n)"
      "diff (cs ! n) = Finite m"
      "\<forall>j<length cs. \<forall>x. diff (cs ! j) = Finite x \<longrightarrow> m \<le> x"
      "\<forall>j<n. \<forall>x. diff (cs ! j) = Finite x \<longrightarrow> m < x"
    by auto
  then show ?thesis
  proof cases
    case stay
    have nofin: "\<forall>d\<in>set ds. \<not> isFinite d"
    proof
      fix d assume "d \<in> set ds"
      then obtain c where c: "c \<in> set cs" "d = diff c" using dcs by (metis imageE set_map)
      with stay(2) nn have "\<not> js_less (diff c) PosInfinity" "diff c \<noteq> NegInfinity" by blast+
      then show "\<not> isFinite d" unfolding c(2) by (cases "diff c") simp_all
    qed
    have "cs \<noteq> [] \<Longrightarrow> preferredIndex p = 0"
      using idx stay(1) by (cases cs) simp_all
    with empty have "preferredIndex p = 0" by blast
    then show ?thesis using nofin len by auto
  next
    case improve
    then have ne: "cs \<noteq> []" by auto
    have pi: "preferredIndex p = int n"
      using idx[OF ne] improve(1,2) by simp
    have n: "n < length ds" using improve(1) len by simp
    have at: "ds ! n = Finite m" using nth[OF n] improve(3) by simp
    have least: "\<forall>j<length ds. \<forall>x. ds ! j = Finite x \<longrightarrow> m \<le> x"
      using improve(4) nth len by simp
    have first: "\<forall>j<n. \<forall>x. ds ! j = Finite x \<longrightarrow> m < x"
    proof (intro allI impI)
      fix j x assume j: "j < n" and x: "ds ! j = Finite x"
      from j n have "j < length ds" by simp
      from nth[OF this] x have "diff (cs ! j) = Finite x" by simp
      with improve(5) j show "m < x" by blast
    qed
    have fin: "\<not> (\<forall>d\<in>set ds. \<not> isFinite d)"
      using at n by (metis isFinite.simps(1) nth_mem)
    have dne: "ds \<noteq> []" using n by auto
    from pi n at least first fin dne show ?thesis by auto
  qed
qed

lemma fmod_uminus: "fmod (- x) y = - fmod x y"
  by (simp add: fmod_def trunc_def ceiling_def)

lemma fmod_abs_less: "0 < y \<Longrightarrow> \<bar>fmod x y\<bar> < y"
proof (cases "0 \<le> x")
  case True
  assume "0 < y"
  from fmod_nonneg[OF True this] show ?thesis by simp
next
  case False
  assume y: "0 < y"
  from False have "0 \<le> - x" by simp
  from fmod_nonneg[OF this y] show ?thesis by (simp add: fmod_uminus)
qed

lemma browser_normalizeBearing_Finite:
  "browser_normalizeBearing (Finite y) =
     Finite (if fmod y 360 < 0 then round_double (fmod y 360 + 360) else fmod y 360)"
proof -
  have "\<bar>fmod y 360\<bar> < 360" by (rule fmod_abs_less) simp
  then have "\<bar>fmod y 360 + 360\<bar> \<le> of_int 720" by simp
  from fl_Finite[OF this] show ?thesis
    by (simp add: browser_normalizeBearing_def Let_def)
qed

text \<open>
  C4 (as amended). For every list of upstream records and every known bearing \<open>b\<close>. A
  record is listed when the first of its url fields \<open>thumb_2048_url\<close>, \<open>thumb_1024_url\<close>,
  \<open>thumb_512_url\<close> that holds a string holds a non-empty one, and is dropped otherwise; so a
  record with no usable url field is dropped. The frames returned are those of the listed
  records, in the order of the response, whatever their scores; each shows the url of that
  field and the record's time, compass angle and id. The score of a listed record is the
  bearing difference of its compass angle and \<open>b\<close>, infinite when it has no numeric compass
  angle. If some score is finite, \<open>preferredIndex\<close> is the position of the least score, the
  first position if several are least; if none is finite or the bearing is unknown,
  \<open>preferredIndex\<close> is 0. For a non-empty list of frames \<open>preferredIndex\<close> lies between 0 and
  the length minus one. \<open>fetchStreetView\<close> makes the same selection at its normalised bearing:
  the remainder of the bearing by 360, plus 360 and rounded when that is negative, and 0
  for a bearing that is not finite.
\<close>

theorem selector_keeps_order_and_prefers_closest:
  assumes kept: "kept = filter spec_listed imgs"
    and ds: "ds = map (spec_difference b) kept"
    and p: "p = selectPayload (Some b) imgs"
  shows "images p = map spec_frame kept \<and>
         images (selectPayload None imgs) = map spec_frame kept \<and>
         preferredIndex (selectPayload None imgs) = 0 \<and>
         (\<forall>im. \<not> spec_usable im \<longrightarrow> \<not> spec_listed im) \<and>
         (kept \<noteq> [] \<longrightarrow> 0 \<le> preferredIndex p \<and> preferredIndex p < int (length kept)) \<and>
         (kept = [] \<longrightarrow> preferredIndex p = 0) \<and>
         ((\<exists>d\<in>set ds. isFinite d) \<longrightarrow>
            (\<exists>m. ds ! nat (preferredIndex p) = Finite m \<and>
                 (\<forall>j<length ds. \<forall>x. ds ! j = Finite x \<longrightarrow> m \<le> x) \<and>
                 (\<forall>j<nat (preferredIndex p). \<forall>x. ds ! j = Finite x \<longrightarrow> m < x))) \<and>
         ((\<forall>d\<in>set ds. \<not> isFinite d) \<longrightarrow> preferredIndex p = 0) \<and>
         (\<forall>y. fetchStreetView_select (Finite y) imgs =
               selectPayload
                 (Some (Finite (if fmod y 360 < 0 then round_double (fmod y 360 + 360)
                                else fmod y 360))) imgs) \<and>
         (\<forall>bearing. \<not> isFinite bearing \<longrightarrow>
            fetchStreetView_select bearing imgs = selectPayload (Some (Finite 0)) imgs)"
proof -
  have frames: "images p = map spec_frame kept"
    unfolding p kept by (rule selectPayload_frames)
  have none_frames: "images (selectPayload None imgs) = map spec_frame kept"
    unfolding kept by (rule selectPayload_frames)
  have none_index: "preferredIndex (selectPayload None imgs) = 0"
    by (rule selectPayload_None_index)
  have dropped: "\<forall>im. \<not> spec_usable im \<longrightarrow> \<not> spec_listed im"
    using not_usable_not_listed by blast
  note sel = selectPayload_index[OF ds[unfolded kept] p]
  have len: "length ds = length kept" "ds = [] \<longleftrightarrow> kept = []" unfolding ds by simp_all
  have rng: "kept \<noteq> [] \<longrightarrow> 0 \<le> preferredIndex p \<and> preferredIndex p < int (length kept)"
    using sel len by simp
  have emp: "kept = [] \<longrightarrow> preferredIndex p = 0" using sel len by simp
  have least: "(\<exists>d\<in>set ds. isFinite d) \<longrightarrow>
            (\<exists>m. ds ! nat (preferredIndex p) = Finite m \<and>
                 (\<forall>j<length ds. \<forall>x. ds ! j = Finite x \<longrightarrow> m \<le> x) \<and>
                 (\<forall>j<nat (preferredIndex p). \<forall>x. ds ! j = Finite x \<longrightarrow> m < x))"
    using sel by blast
  have nofin: "(\<forall>d\<in>set ds. \<not> isFinite d) \<longrightarrow> preferredIndex p = 0"
    using sel by blast
  have client: "\<forall>y. fetchStreetView_select (Finite y) imgs =
               selectPayload
                 (Some (Finite (if fmod y 360 < 0 then round_double (fmod y 360 + 360)
                                else fmod y 360))) imgs"
    by (simp add: fetchStreetView_select_def Let_def browser_normalizeBearing_Finite)
  have client0: "\<forall>bearing. \<not> isFinite bearing \<longrightarrow>
            fetchStreetView_select bearing imgs = selectPayload (Some (Finite 0)) imgs"
    by (simp add: fetchStreetView_select_def Let_def browser_normalizeBearing_def)
  from frames none_frames none_index dropped rng emp least nofin client client0
  show ?thesis by (intro conjI)
qed

text \<open>
  Five records against bearing 0: the first has no url and is dropped; the others have
  compass angles 90, 350 and 10 and none. The four frames come in the order of the response,
  and of the two scores of 10 the first is preferred.
\<close>

theorem selector_keeps_order_and_prefers_closest_witness:
  "(\<exists>d\<in>set (map (spec_difference (Finite 0)) (filter spec_listed
      [[(''compass_angle'', JNum (Finite 0))],
       [(''thumb_1024_url'', JStr ''a''), (''compass_angle'', JNum (Finite 90))],
       [(''thumb_2048_url'', JStr ''b''), (''compass_angle'', JNum (Finite 350))],
       [(''thumb_512_url'', JStr ''c''), (''compass_angle'', JNum (Finite 10))],
       [(''thumb_1024_url'', JStr ''d'')]])). isFinite d) \<and>
   preferredIndex (selectPayload (Some (Finite 0))
      [[(''compass_angle'', JNum (Finite 0))],
       [(''thumb_1024_url'', JStr ''a''), (''compass_angle'', JNum (Finite 90))],
       [(''thumb_2048_url'', JStr ''b''), (''compass_angle'', JNum (Finite 350))],
       [(''thumb_512_url'', JStr ''c''), (''compass_angle'', JNum (Finite 10))],
       [(''thumb_1024_url'', JStr ''d'')]]) = 1 \<and>
   map imageUrl (images (selectPayload (Some (Finite 0))
      [[(''compass_angle'', JNum (Finite 0))],
       [(''thumb_1024_url'', JStr ''a''), (''compass_angle'', JNum (Finite 90))],
       [(''thumb_2048_url'', JStr ''b''), (''compass_angle'', JNum (Finite 350))],
       [(''thumb_512_url'', JStr ''c''), (''compass_angle'', JNum (Finite 10))],
       [(''thumb_1024_url'', JStr ''d'')]])) =
     [''a'', ''b'', ''c'', ''d'']"
proof -
  let ?imgs = "[[(''compass_angle'', JNum (Finite 0))],
       [(''thumb_1024_url'', JStr ''a''), (''compass_angle'', JNum (Finite 90))],
       [(''thumb_2048_url'', JStr ''b''), (''compass_angle'', JNum (Finite 350))],
       [(''thumb_512_url'', JStr ''c''), (''compass_angle'', JNum (Finite 10))],
       [(''thumb_1024_url'', JStr ''d'')]]"
  let ?p = "selectPayload (Some (Finite 0)) ?imgs"
  have ok: "\<bar>round_double x\<bar> \<le> MAX_VALUE" if "\<bar>x\<bar> \<le> 360" for x
  proof -
    have "(360::real) \<le> 2 ^ 1023" by simp
    with that have "\<bar>x\<bar> \<le> 2 ^ 1023" by linarith
    then show ?thesis by (rule round_double_no_overflow)
  qed
  have d90: "normalizeBearingDifference (Finite 90) (Finite 0) = Finite 90"
    using normalizeBearingDifference_Finite[of 90 0] ok[of "90 - 0"]
    by (simp add: fmod_def trunc_def)
  have d350: "normalizeBearingDifference (Finite 350) (Finite 0) = Finite 10"
    using normalizeBearingDifference_Finite[of 350 0] ok[of "350 - 0"]
    by (simp add: fmod_def trunc_def)
  have d10: "normalizeBearingDifference (Finite 10) (Finite 0) = Finite 10"
    using normalizeBearingDifference_Finite[of 10 0] ok[of "10 - 0"]
    by (simp add: fmod_def trunc_def)
  have kept: "filter spec_listed ?imgs =
      [[(''thumb_1024_url'', JStr ''a''), (''compass_angle'', JNum (Finite 90))],
       [(''thumb_2048_url'', JStr ''b''), (''compass_angle'', JNum (Finite 350))],
       [(''thumb_512_url'', JStr ''c''), (''compass_angle'', JNum (Finite 10))],
       [(''thumb_1024_url'', JStr ''d'')]]"
    by (simp add: spec_listed_def spec_thumbnail_def thumbKeys_def List.map_filter_simps)
  have ds: "map (spec_difference (Finite 0)) (filter spec_listed ?imgs) =
      [Finite 90, Finite 10, Finite 10, PosInfinity]"
    unfolding kept by (simp add: spec_difference_def d90 d350 d10)
  have ex: "\<exists>d\<in>set (map (spec_difference (Finite 0)) (filter spec_listed ?imgs)). isFinite d"
    unfolding ds by simp
  note t = selector_keeps_order_and_prefers_closest[OF refl refl refl,
      where imgs = ?imgs and b = "Finite 0"]
  from t have fr: "images ?p = map spec_frame (filter spec_listed ?imgs)" by blast
  have urls: "map imageUrl (images ?p) = [''a'', ''b'', ''c'', ''d'']"
    unfolding fr kept
    by (simp add: spec_frame_def spec_thumbnail_def thumbKeys_def List.map_filter_simps)
  from t ex obtain m where
    m: "map (spec_difference (Finite 0)) (filter spec_listed ?imgs) ! nat (preferredIndex ?p) =
          Finite m"
      "\<forall>j<length (map (spec_difference (Finite 0)) (filter spec_listed ?imgs)). \<forall>x.
          map (spec_difference (Finite 0)) (filter spec_listed ?imgs) ! j = Finite x \<longrightarrow> m \<le> x"
      "\<forall>j<nat (preferredIndex ?p). \<forall>x.
          map (spec_difference (Finite 0)) (filter spec_listed ?imgs) ! j = Finite x \<longrightarrow> m < x"
    by blast
  from t have rng: "0 \<le> preferredIndex ?p \<and> preferredIndex ?p < 4"
    unfolding kept by simp
  have le: "m \<le> 10" using m(2) unfolding ds by (simp add: All_less_Suc2)
  from rng have "preferredIndex ?p = 0 \<or> preferredIndex ?p = 1 \<or> preferredIndex ?p = 2 \<or>
      preferredIndex ?p = 3" by linarith
  then have "preferredIndex ?p = 1"
    using m(1,3) le unfolding ds by (auto simp add: All_less_Suc2 eval_nat_numeral)
  then show ?thesis using ex urls by blast
qed

text \<open>
  Against C4 as first stated (the candidates dropped are those with no usable thumbnail): a
  record whose \<open>thumb_2048_url\<close> is the empty string is dropped although its
  \<open>thumb_1024_url\<close> is usable, because the chain stops at the first url field that holds a
  string.
\<close>

theorem empty_url_hides_smaller_thumbnail:
  "spec_usable [(''thumb_2048_url'', JStr []),
                (''thumb_1024_url'', JStr ''https://example.com/1024.jpg'')] \<and>
   images (selectPayload (Some (Finite 0))
     [[(''thumb_2048_url'', JStr []),
       (''thumb_1024_url'', JStr ''https://example.com/1024.jpg'')]]) = []"
  by (simp add: spec_usable_def thumbKeys_def selectPayload_def pickThumb_def string_field_def
      emptyPayload_def)

section \<open>Properties of the caches\<close>

lemma isExpired_Finite:
  "cachedAt e = Finite c \<Longrightarrow> isExpired now e \<longleftrightarrow> now - c > CACHE_TTL_MS"
  by (simp add: isExpired_def js_sub_def)

lemma validateEntry_version:
  "map_of props ''version'' \<noteq> Some (JNum (Finite 2)) \<Longrightarrow> validateEntry (JObj props) = None"
  by (simp add: CACHE_VERSION_def)

lemma browser_read_tier1_fresh:
  assumes "window_defined st"
    and "memoryCache st (CACHE_KEY_PREFIX @ getCacheKey tf lat lng bearing) = Some e"
    and "\<not> isExpired now e"
  shows "browser_getCachedStreetView tf now lat lng bearing st = (Some (payload e), st)"
  using assms by (simp add: browser_getCachedStreetView_def Let_def)

lemma browser_read_tier1_expired:
  assumes "window_defined st"
    and "memoryCache st (CACHE_KEY_PREFIX @ getCacheKey tf lat lng bearing) = Some e"
    and "isExpired now e"
  shows "browser_getCachedStreetView tf now lat lng bearing st =
           (None, removeItem (CACHE_KEY_PREFIX @ getCacheKey tf lat lng bearing)
                    (st\<lparr>memoryCache := (memoryCache st)
                          (CACHE_KEY_PREFIX @ getCacheKey tf lat lng bearing := None)\<rparr>))"
  using assms by (simp add: browser_getCachedStreetView_def Let_def removeFromStorage_def)

lemma removeItem_memoryCache: "memoryCache (removeItem k st) = memoryCache st"
  by (simp add: removeItem_def split: option.splits)

lemma browser_read_tier2_valid:
  assumes "window_defined st"
    and "memoryCache st (CACHE_KEY_PREFIX @ getCacheKey tf lat lng bearing) = None"
    and "persistentStorage st = Some storage"
    and "storage (CACHE_KEY_PREFIX @ getCacheKey tf lat lng bearing) = Some (Parses j)"
    and "validateEntry j = Some e"
    and "\<not> isExpired now e"
  shows "browser_getCachedStreetView tf now lat lng bearing st =
           (Some (payload e),
            st\<lparr>memoryCache := (memoryCache st)
                  (CACHE_KEY_PREFIX @ getCacheKey tf lat lng bearing \<mapsto> e)\<rparr>)"
  using assms by (simp add: browser_getCachedStreetView_def Let_def loadFromStorage_def)

lemma browser_read_tier2_invalid:
  assumes "window_defined st"
    and "memoryCache st (CACHE_KEY_PREFIX @ getCacheKey tf lat lng bearing) = None"
    and "persistentStorage st = Some storage"
    and "storage (CACHE_KEY_PREFIX @ getCacheKey tf lat lng bearing) = Some t"
    and "t \<noteq> EmptyText"
    and "\<nexists>j e. t = Parses j \<and> validateEntry j = Some e \<and> \<not> isExpired now e"
  shows "browser_getCachedStreetView tf now lat lng bearing st =
           (None, removeItem (CACHE_KEY_PREFIX @ getCacheKey tf lat lng bearing) st)"
  using assms
  by (cases t)
     (auto simp: browser_getCachedStreetView_def Let_def loadFromStorage_def
        removeFromStorage_def split: option.splits)

lemma cache_wf_window:
  "cache_wf st \<Longrightarrow> memoryCache st k = Some e \<or> getItem k st = Some t \<Longrightarrow> window_defined st"
  by (auto simp: cache_wf_def getItem_def)

lemma cache_wf_read:
  "cache_wf st \<Longrightarrow> cache_wf (snd (browser_getCachedStreetView tf now lat lng bearing st))"
  by (auto simp: cache_wf_def browser_getCachedStreetView_def Let_def loadFromStorage_def
      removeFromStorage_def removeItem_def
      split: option.splits stored_text.splits if_splits)

lemma cache_wf_write:
  "cache_wf st \<Longrightarrow> cache_wf (browser_setCachedStreetView tf now lat lng bearing p st)"
  by (auto simp: cache_wf_def browser_setCachedStreetView_def Let_def saveToStorage_def
      split: option.splits)









lemma server_read_unchanged_or_removed:
  "snd (getCachedStreetView tf pt now lat lng b entries) = entries \<or>
   snd (getCachedStreetView tf pt now lat lng b entries) =
     entries(getKey tf lat lng (normalizeBearing b) := None)"
  by (simp add: getCachedStreetView_def Let_def split: option.splits)




section \<open>Properties of the imagery route\<close>

lemma GET_valid:
  assumes "latParam req = Some latP" "lngParam req = Some lngP" "latP \<noteq> []" "lngP \<noteq> []"
    and "\<not> falsy (accessToken env)"
    and "isFinite (parseFloat env latP)" "isFinite (parseFloat env lngP)"
  shows "GET env req entries =
     (case requestBearing env req of
        None \<Rightarrow> lookupImagery env (parseFloat env latP) (parseFloat env lngP) None entries []
      | Some b \<Rightarrow>
          (case getCachedStreetView (toFixed env) (persistThrows_at_read env) (now_at_read env)
                  (parseFloat env latP) (parseFloat env lngP) b entries of
             (Throws, entries1) \<Rightarrow>
               (UncaughtException, entries1,
                [CacheRead (getKey (toFixed env) (parseFloat env latP) (parseFloat env lngP)
                   (normalizeBearing b))])
           | (Returns (Some cached), entries1) \<Rightarrow>
               (PayloadResponse cached, entries1,
                [CacheRead (getKey (toFixed env) (parseFloat env latP) (parseFloat env lngP)
                   (normalizeBearing b))])
           | (Returns None, entries1) \<Rightarrow>
               lookupImagery env (parseFloat env latP) (parseFloat env lngP) (Some b) entries1
                 [CacheRead (getKey (toFixed env) (parseFloat env latP) (parseFloat env lngP)
                    (normalizeBearing b))]))"
  using assms by (cases "requestBearing env req") (simp_all add: GET_def Let_def)

lemma fl_add_360:
  assumes "\<bar>r\<bar> < 360"
  shows "fl_add (Finite r) (Finite 360) = Finite (round_double (r + 360))"
proof -
  from assms have "\<bar>r + 360\<bar> \<le> of_int 720" by simp
  from fl_Finite[OF this] show ?thesis by simp
qed

lemma js_norm360_Finite:
  "js_rem (fl_add (js_rem (js_rem (Finite x) (Finite 360)) (Finite 360)) (Finite 360)) (Finite 360) =
     Finite (fmod (round_double (fmod (fmod x 360) 360 + 360)) 360)"
proof -
  have "\<bar>fmod (fmod x 360) 360\<bar> < 360" by (rule fmod_abs_less) simp
  from fl_add_360[OF this] show ?thesis by simp
qed

lemma js_norm360_finite:
  "isFinite (js_rem (fl_add (js_rem (js_rem x (Finite 360)) (Finite 360)) (Finite 360)) (Finite 360))
     \<longleftrightarrow> isFinite x"
proof (cases x)
  case (Finite v)
  then show ?thesis by (simp only: js_norm360_Finite) simp
qed simp_all

lemma requestBearing_None_iff:
  "requestBearing env req = None \<longleftrightarrow>
     bearingParam req = None \<or>
     (\<exists>bp. bearingParam req = Some bp \<and> \<not> isFinite (parseFloat env bp))"
  by (cases "bearingParam req") (simp_all add: requestBearing_def js_norm360_finite)

lemma requestBearing_Finite:
  assumes "bearingParam req = Some bp" "parseFloat env bp = Finite x"
  shows "requestBearing env req =
           Some (Finite (fmod (round_double (fmod (fmod x 360) 360 + 360)) 360))"
  using assms js_norm360_Finite[of x] by (simp add: requestBearing_def)

lemma lookupImagery_None:
  "lookupImagery env lat lng None entries tr = (r, entries', tr') \<Longrightarrow>
     entries' = entries \<and> tr' = tr @ [UpstreamQuery]"
  by (auto simp: lookupImagery_def Let_def
      split: upstream.splits if_splits option.splits completion.splits)

lemma lookupImagery_response:
  assumes "lookupImagery env lat lng nb entries tr0 = (r, entries', tr)"
  shows "UpstreamQuery \<in> set tr \<and>
         r = (case fetch env of
                FetchThrows \<Rightarrow> ErrorResponse 502 ''Failed to reach street imagery service.''
              | FetchResponse ok body \<Rightarrow>
                  if \<not> ok then ErrorResponse 502 ''Street imagery request failed.''
                  else (case body of
                          None \<Rightarrow> UncaughtException
                        | Some parsed \<Rightarrow>
                            (case responseImages parsed of
                               Throws \<Rightarrow> UncaughtException
                             | Returns imgs \<Rightarrow>
                                 if nb \<noteq> None \<and> persistThrows_at_write env
                                 then UncaughtException
                                 else PayloadResponse (selectPayload nb imgs))))"
  using assms
  by (auto simp: lookupImagery_def Let_def setCachedStreetView_def
      split: upstream.splits if_splits option.splits completion.splits)

lemma GET_missing:
  "falsy (latParam req) \<or> falsy (lngParam req) \<Longrightarrow>
   GET env req entries = (ErrorResponse 400 ''Missing lat/lng parameters.'', entries, [])"
  by (auto simp: GET_def falsy_def split: option.splits)

lemma GET_no_token:
  "\<not> falsy (latParam req) \<Longrightarrow> \<not> falsy (lngParam req) \<Longrightarrow> falsy (accessToken env) \<Longrightarrow>
   GET env req entries =
     (ErrorResponse 500 ''Street imagery unavailable. No access token.'', entries, [])"
  by (auto simp: GET_def falsy_def split: option.splits)

lemma GET_not_finite:
  assumes "latParam req = Some latP" "lngParam req = Some lngP" "latP \<noteq> []" "lngP \<noteq> []"
    and "\<not> falsy (accessToken env)"
    and "\<not> isFinite (parseFloat env latP) \<or> \<not> isFinite (parseFloat env lngP)"
  shows "GET env req entries = (ErrorResponse 400 ''Invalid lat/lng parameters.'', entries, [])"
  using assms by (auto simp: GET_def Let_def)

lemma GET_cases:
  obtains (missing) "falsy (latParam req) \<or> falsy (lngParam req)"
  | (no_token) "\<not> falsy (latParam req)" "\<not> falsy (lngParam req)" "falsy (accessToken env)"
  | (not_finite) latP lngP where "latParam req = Some latP" "lngParam req = Some lngP"
      "latP \<noteq> []" "lngP \<noteq> []" "\<not> falsy (accessToken env)"
      "\<not> isFinite (parseFloat env latP) \<or> \<not> isFinite (parseFloat env lngP)"
  | (valid) latP lngP where "latParam req = Some latP" "lngParam req = Some lngP"
      "latP \<noteq> []" "lngP \<noteq> []" "\<not> falsy (accessToken env)"
      "isFinite (parseFloat env latP)" "isFinite (parseFloat env lngP)"
proof (cases "falsy (latParam req) \<or> falsy (lngParam req)")
  case True
  then show ?thesis by (rule missing)
next
  case False
  then obtain latP lngP where p: "latParam req = Some latP" "lngParam req = Some lngP"
      "latP \<noteq> []" "lngP \<noteq> []"
    by (auto simp: falsy_def)
  show ?thesis
  proof (cases "falsy (accessToken env)")
    case True
    with False show ?thesis by (intro no_token) simp_all
  next
    case tok: False
    show ?thesis
    proof (cases "isFinite (parseFloat env latP) \<and> isFinite (parseFloat env lngP)")
      case True
      with p tok show ?thesis by (intro valid[of latP lngP]) simp_all
    next
      case False
      with p tok show ?thesis by (intro not_finite[of latP lngP]) simp_all
    qed
  qed
qed

text \<open>
  The ways the handler ends: the three rejections before anything is done; an answer from the
  cache, or a throw of the cache read, with no upstream query; and the outcomes after the
  upstream query.
\<close>

lemma GET_shape:
  assumes "GET env req entries = (r, entries', tr)"
  shows "(tr = [] \<and> r = ErrorResponse 400 ''Missing lat/lng parameters.'' \<and>
            (falsy (latParam req) \<or> falsy (lngParam req))) \<or>
         (tr = [] \<and> r = ErrorResponse 500 ''Street imagery unavailable. No access token.'' \<and>
            \<not> falsy (latParam req) \<and> \<not> falsy (lngParam req) \<and> falsy (accessToken env)) \<or>
         (tr = [] \<and> r = ErrorResponse 400 ''Invalid lat/lng parameters.'' \<and>
            \<not> falsy (latParam req) \<and> \<not> falsy (lngParam req) \<and> \<not> falsy (accessToken env) \<and>
            (\<exists>latP lngP. latParam req = Some latP \<and> lngParam req = Some lngP \<and>
               (\<not> isFinite (parseFloat env latP) \<or> \<not> isFinite (parseFloat env lngP)))) \<or>
         (UpstreamQuery \<notin> set tr \<and>
            ((\<exists>p. r = PayloadResponse p) \<or>
             (r = UncaughtException \<and> persistThrows_at_read env \<and> entries' \<noteq> entries)) \<and>
            requestBearing env req \<noteq> None \<and>
            \<not> falsy (latParam req) \<and> \<not> falsy (lngParam req) \<and> \<not> falsy (accessToken env) \<and>
            (\<exists>latP lngP. latParam req = Some latP \<and> lngParam req = Some lngP \<and>
               isFinite (parseFloat env latP) \<and> isFinite (parseFloat env lngP))) \<or>
         (UpstreamQuery \<in> set tr \<and>
            \<not> falsy (latParam req) \<and> \<not> falsy (lngParam req) \<and> \<not> falsy (accessToken env) \<and>
            (\<exists>latP lngP. latParam req = Some latP \<and> lngParam req = Some lngP \<and>
               isFinite (parseFloat env latP) \<and> isFinite (parseFloat env lngP)) \<and>
            r = (case fetch env of
                   FetchThrows \<Rightarrow> ErrorResponse 502 ''Failed to reach street imagery service.''
                 | FetchResponse ok body \<Rightarrow>
                     if \<not> ok then ErrorResponse 502 ''Street imagery request failed.''
                     else (case body of
                             None \<Rightarrow> UncaughtException
                           | Some parsed \<Rightarrow>
                               (case responseImages parsed of
                                  Throws \<Rightarrow> UncaughtException
                                | Returns imgs \<Rightarrow>
                                    if requestBearing env req \<noteq> None \<and>
                                       persistThrows_at_write env
                                    then UncaughtException
                                    else PayloadResponse
                                           (selectPayload (requestBearing env req) imgs)))))"
proof (cases rule: GET_cases[where req=req and env=env])
  case missing
  from GET_missing[OF this, of env entries] assms missing show ?thesis by simp
next
  case no_token
  from GET_no_token[OF this, of entries] assms no_token show ?thesis by simp
next
  case (not_finite latP lngP)
  from GET_not_finite[OF this, of entries] assms not_finite show ?thesis
    by (simp add: falsy_def)
next
  case (valid latP lngP)
  have nf: "\<not> falsy (latParam req)" "\<not> falsy (lngParam req)"
    using valid by (simp_all add: falsy_def)
  note eq = GET_valid[OF valid, of entries]
  show ?thesis
  proof (cases "requestBearing env req")
    case None
    with eq assms have "lookupImagery env (parseFloat env latP) (parseFloat env lngP) None
        entries [] = (r, entries', tr)" by simp
    from lookupImagery_response[OF this] None nf valid show ?thesis
      by (simp split: upstream.splits option.splits completion.splits)
  next
    case (Some b)
    show ?thesis
    proof (cases "getCachedStreetView (toFixed env) (persistThrows_at_read env)
                  (now_at_read env) (parseFloat env latP) (parseFloat env lngP) b entries")
      case (Pair res entries1)
      show ?thesis
      proof (cases res)
        case Throws
        with eq assms Some Pair
        have r: "r = UncaughtException" "entries' = entries1"
          "tr = [CacheRead (getKey (toFixed env) (parseFloat env latP) (parseFloat env lngP)
               (normalizeBearing b))]" by simp_all
        from Pair Throws have "persistThrows_at_read env \<and> entries1 \<noteq> entries"
          by (auto simp: getCachedStreetView_def Let_def fun_upd_idem_iff
              split: option.splits if_splits)
        with r nf valid Some show ?thesis by simp
      next
        case (Returns v)
        show ?thesis
        proof (cases v)
          case None
          with eq assms Some Pair Returns have "lookupImagery env (parseFloat env latP)
              (parseFloat env lngP) (Some b) entries1
              [CacheRead (getKey (toFixed env) (parseFloat env latP) (parseFloat env lngP)
                 (normalizeBearing b))] = (r, entries', tr)" by simp
          from lookupImagery_response[OF this] Some nf valid show ?thesis
            by (simp split: upstream.splits option.splits completion.splits)
        next
          case (Some cached)
          with eq assms \<open>requestBearing env req = Some b\<close> Pair Returns
          have "r = PayloadResponse cached"
            "tr = [CacheRead (getKey (toFixed env) (parseFloat env latP) (parseFloat env lngP)
                 (normalizeBearing b))]" by simp_all
          with nf valid \<open>requestBearing env req = Some b\<close> show ?thesis by simp
        qed
      qed
    qed
  qed
qed



lemma example_requestBearing:
  "requestBearing (example_env up now) example_request = Some (Finite 90)"
  by (simp add: requestBearing_Finite[where bp = "''90''" and x = 90] example_env_def
      example_request_def example_parseFloat_def fmod_def trunc_def)

text \<open>
  The rounding of the addition shows in the normalised bearing: for the double nearest to
  0.1 it is 0.10000000000002274.
\<close>

lemma requestBearing_rounds:
  assumes "bearingParam req = Some bp"
    and "parseFloat env bp = Finite (3602879701896397 / 36028797018963968)"
  shows "requestBearing env req = Some (Finite (879609302221 / 8796093022208))"
proof -
  have f: "fmod (fmod (3602879701896397 / 36028797018963968) 360) 360 =
      3602879701896397 / 36028797018963968"
    by (simp add: fmod_def trunc_def)
  have r: "round_double (3602879701896397 / 36028797018963968 + 360) =
      3167473097297101 / 8796093022208"
    by (subst round_double_eval[where e = 8]) (simp_all add: roundTiesToEven_def Let_def)
  show ?thesis
    unfolding requestBearing_Finite[OF assms] f r by (simp add: fmod_def trunc_def)
qed

section \<open>Cache and route claims\<close>



text \<open>
  C7 (as amended). The read of the browser cache, for every key, in every state that
  satisfies the module's invariant \<open>cache_wf\<close>, which the read preserves. A tier-1 entry
  within the TTL is returned and nothing changes. A tier-1 entry past the TTL is removed from
  both tiers and the read reports absence. When tier 1 has no entry: a tier-2 item that
  parses to an entry of the current version, with a numeric timestamp and an object payload,
  and that is not expired is copied into tier 1 and returned, tier 2 keeping it; a tier-2
  item with non-empty text that does not parse, fails the shape test (a version other than 2
  is one way to fail it) or is expired is removed from tier 2 and the read reports absence.
\<close>

theorem two_tier_read:
  assumes wf: "cache_wf st"
    and key: "key = CACHE_KEY_PREFIX @ getCacheKey tf lat lng bearing"
    and read: "browser_getCachedStreetView tf now lat lng bearing st = (res, st')"
  shows
   "(\<forall>e. memoryCache st key = Some e \<and> \<not> isExpired now e \<longrightarrow>
       res = Some (payload e) \<and> st' = st) \<and>
    (\<forall>e. memoryCache st key = Some e \<and> isExpired now e \<longrightarrow>
       res = None \<and> memoryCache st' key = None \<and> getItem key st' = None) \<and>
    (\<forall>j e. memoryCache st key = None \<and> getItem key st = Some (Parses j) \<and>
       validateEntry j = Some e \<and> \<not> isExpired now e \<longrightarrow>
       res = Some (payload e) \<and> memoryCache st' key = Some e \<and>
       getItem key st' = Some (Parses j)) \<and>
    (\<forall>t. memoryCache st key = None \<and> getItem key st = Some t \<and> t \<noteq> EmptyText \<and>
       (\<nexists>j e. t = Parses j \<and> validateEntry j = Some e \<and> \<not> isExpired now e) \<longrightarrow>
       res = None \<and> memoryCache st' key = None \<and> getItem key st' = None) \<and>
    (\<forall>props. map_of props ''version'' \<noteq> Some (JNum (Finite 2)) \<longrightarrow>
       validateEntry (JObj props) = None) \<and>
    (\<forall>e c. cachedAt e = Finite c \<longrightarrow> (isExpired now e \<longleftrightarrow> now - c > CACHE_TTL_MS)) \<and>
    cache_wf st'"
proof -
  have w1: "window_defined st" if "memoryCache st key = Some e" for e
    using cache_wf_window[OF wf, of key e] that by blast
  have w2: "window_defined st" if "getItem key st = Some t" for t
    using cache_wf_window[OF wf, of key _ t] that by blast
  have t1: "\<forall>e. memoryCache st key = Some e \<and> \<not> isExpired now e \<longrightarrow>
       res = Some (payload e) \<and> st' = st"
  proof (intro allI impI)
    fix e assume e: "memoryCache st key = Some e \<and> \<not> isExpired now e"
    with browser_read_tier1_fresh[OF w1, of e tf lat lng bearing e now] read
    show "res = Some (payload e) \<and> st' = st" unfolding key by simp
  qed
  have t2: "\<forall>e. memoryCache st key = Some e \<and> isExpired now e \<longrightarrow>
       res = None \<and> memoryCache st' key = None \<and> getItem key st' = None"
  proof (intro allI impI)
    fix e assume e: "memoryCache st key = Some e \<and> isExpired now e"
    with browser_read_tier1_expired[OF w1, of e tf lat lng bearing e now] read
    have "res = None" "st' = removeItem key (st\<lparr>memoryCache := (memoryCache st)(key := None)\<rparr>)"
      unfolding key by simp_all
    then show "res = None \<and> memoryCache st' key = None \<and> getItem key st' = None"
      by (simp add: removeItem_memoryCache getItem_def removeItem_def split: option.splits)
  qed
  have t3: "\<forall>j e. memoryCache st key = None \<and> getItem key st = Some (Parses j) \<and>
       validateEntry j = Some e \<and> \<not> isExpired now e \<longrightarrow>
       res = Some (payload e) \<and> memoryCache st' key = Some e \<and>
       getItem key st' = Some (Parses j)"
  proof (intro allI impI)
    fix j e
    assume a: "memoryCache st key = None \<and> getItem key st = Some (Parses j) \<and>
       validateEntry j = Some e \<and> \<not> isExpired now e"
    then obtain storage where s: "persistentStorage st = Some storage"
        "storage key = Some (Parses j)"
      by (auto simp: getItem_def split: option.splits)
    from a have "getItem key st = Some (Parses j)" by blast
    note w = w2[OF this]
    from browser_read_tier2_valid[OF w, of tf lat lng bearing storage j e now] a s read
    have "res = Some (payload e)" "st' = st\<lparr>memoryCache := (memoryCache st)(key \<mapsto> e)\<rparr>"
      unfolding key by simp_all
    with a show "res = Some (payload e) \<and> memoryCache st' key = Some e \<and>
       getItem key st' = Some (Parses j)"
      by (simp add: getItem_def)
  qed
  have t4: "\<forall>t. memoryCache st key = None \<and> getItem key st = Some t \<and> t \<noteq> EmptyText \<and>
       (\<nexists>j e. t = Parses j \<and> validateEntry j = Some e \<and> \<not> isExpired now e) \<longrightarrow>
       res = None \<and> memoryCache st' key = None \<and> getItem key st' = None"
  proof (intro allI impI)
    fix t
    assume a: "memoryCache st key = None \<and> getItem key st = Some t \<and> t \<noteq> EmptyText \<and>
       (\<nexists>j e. t = Parses j \<and> validateEntry j = Some e \<and> \<not> isExpired now e)"
    then obtain storage where s: "persistentStorage st = Some storage" "storage key = Some t"
      by (auto simp: getItem_def split: option.splits)
    from a have m: "memoryCache st key = None" and ne: "t \<noteq> EmptyText"
      and bad: "\<nexists>j e. t = Parses j \<and> validateEntry j = Some e \<and> \<not> isExpired now e"
      by blast+
    from a have "getItem key st = Some t" by blast
    note w = w2[OF this]
    from browser_read_tier2_invalid[OF w m[unfolded key] s(1) s(2)[unfolded key] ne bad]
      read
    have "res = None" "st' = removeItem key st" unfolding key by simp_all
    with m s show "res = None \<and> memoryCache st' key = None \<and> getItem key st' = None"
      by (simp add: removeItem_memoryCache getItem_def removeItem_def)
  qed
  have t5: "\<forall>props. map_of props ''version'' \<noteq> Some (JNum (Finite 2)) \<longrightarrow>
       validateEntry (JObj props) = None"
    using validateEntry_version by blast
  have t6: "\<forall>e c. cachedAt e = Finite c \<longrightarrow> (isExpired now e \<longleftrightarrow> now - c > CACHE_TTL_MS)"
    using isExpired_Finite by blast
  have t7: "cache_wf st'"
    using cache_wf_read[OF wf, of tf now lat lng bearing] read by simp
  from t1 t2 t3 t4 t5 t6 t7 show ?thesis by (intro conjI)
qed

text \<open>
  A stored entry of version 2, one hour old, is promoted and returned; the same entry with
  version 1 is removed and reported absent.
\<close>

theorem two_tier_read_witness:
  "cache_wf (example_browser_cache (Parses (example_stored_entry 2 0))) \<and>
   fst (browser_getCachedStreetView example_toFixed 3600000 (Finite (40758 / 1000)) (Finite (- (739855 / 10000))) (Finite 90)
          (example_browser_cache (Parses (example_stored_entry 2 0)))) = Some emptyPayload_json \<and>
   memoryCache (snd (browser_getCachedStreetView example_toFixed 3600000 (Finite (40758 / 1000)) (Finite (- (739855 / 10000))) (Finite 90)
          (example_browser_cache (Parses (example_stored_entry 2 0))))) example_key =
     Some \<lparr>payload = emptyPayload_json, cachedAt = Finite 0, version = Finite 2\<rparr> \<and>
   fst (browser_getCachedStreetView example_toFixed 3600000 (Finite (40758 / 1000)) (Finite (- (739855 / 10000))) (Finite 90)
          (example_browser_cache (Parses (example_stored_entry 1 0)))) = None \<and>
   getItem example_key (snd (browser_getCachedStreetView example_toFixed 3600000 (Finite (40758 / 1000)) (Finite (- (739855 / 10000))) (Finite 90)
          (example_browser_cache (Parses (example_stored_entry 1 0))))) = None"
proof -
  let ?e = "\<lparr>payload = emptyPayload_json, cachedAt = Finite 0, version = Finite 2\<rparr>"
  have k: "example_key = CACHE_KEY_PREFIX @ getCacheKey example_toFixed (Finite (40758 / 1000)) (Finite (- (739855 / 10000))) (Finite 90)"
    by (simp add: example_key_def)
  have w: "window_defined (example_browser_cache t)" for t
    by (simp add: example_browser_cache_def)
  have wf: "cache_wf (example_browser_cache t)" for t
    by (simp add: cache_wf_def example_browser_cache_def)
  have m: "memoryCache (example_browser_cache t) example_key = None" for t
    by (simp add: example_browser_cache_def)
  have g: "getItem example_key (example_browser_cache t) = Some t" for t
    by (simp add: example_browser_cache_def getItem_def)
  have v2: "validateEntry (example_stored_entry 2 0) = Some ?e"
    by (simp add: example_stored_entry_def emptyPayload_json_def CACHE_VERSION_def)
  have v1: "validateEntry (example_stored_entry 1 0) = None"
    by (simp add: example_stored_entry_def emptyPayload_json_def CACHE_VERSION_def)
  have fresh: "\<not> isExpired 3600000 ?e"
    by (simp add: isExpired_def js_sub_def CACHE_TTL_MS_def)
  note good = two_tier_read[OF wf k surjective_pairing, of "Parses (example_stored_entry 2 0)" 3600000]
  note bad = two_tier_read[OF wf k surjective_pairing, of "Parses (example_stored_entry 1 0)" 3600000]
  from good m g v2 fresh
  have a: "fst (browser_getCachedStreetView example_toFixed 3600000 (Finite (40758 / 1000)) (Finite (- (739855 / 10000))) (Finite 90)
          (example_browser_cache (Parses (example_stored_entry 2 0)))) = Some (payload ?e) \<and>
      memoryCache (snd (browser_getCachedStreetView example_toFixed 3600000 (Finite (40758 / 1000)) (Finite (- (739855 / 10000))) (Finite 90)
          (example_browser_cache (Parses (example_stored_entry 2 0))))) example_key = Some ?e"
    by blast
  have nv: "\<nexists>j e. Parses (example_stored_entry 1 0) = Parses j \<and> validateEntry j = Some e \<and>
      \<not> isExpired 3600000 e"
    using v1 by simp
  from bad m g nv
  have b: "fst (browser_getCachedStreetView example_toFixed 3600000 (Finite (40758 / 1000)) (Finite (- (739855 / 10000))) (Finite 90)
          (example_browser_cache (Parses (example_stored_entry 1 0)))) = None \<and>
      getItem example_key (snd (browser_getCachedStreetView example_toFixed 3600000 (Finite (40758 / 1000)) (Finite (- (739855 / 10000))) (Finite 90)
          (example_browser_cache (Parses (example_stored_entry 1 0))))) = None"
    by blast
  from a b wf show ?thesis by simp
qed

text \<open>
  Against C7 as first stated (every tier-2 item failing validation is removed): an item whose
  text is the empty string is reported absent and stays in tier 2.
\<close>

theorem empty_stored_text_is_kept:
  "memoryCache (example_browser_cache EmptyText) example_key = None \<and>
   getItem example_key (example_browser_cache EmptyText) = Some EmptyText \<and>
   fst (browser_getCachedStreetView example_toFixed 3600000 (Finite (40758 / 1000)) (Finite (- (739855 / 10000))) (Finite 90)
          (example_browser_cache EmptyText)) = None \<and>
   getItem example_key (snd (browser_getCachedStreetView example_toFixed 3600000 (Finite (40758 / 1000)) (Finite (- (739855 / 10000))) (Finite 90)
          (example_browser_cache EmptyText))) = Some EmptyText"
  by (simp add: browser_getCachedStreetView_def loadFromStorage_def getItem_def Let_def
      example_browser_cache_def example_key_def)

text \<open>
  C8 (as amended). The error responses of the imagery route. A missing or empty \<open>lat\<close> or
  \<open>lng\<close> gives 400. Otherwise an access token that is not configured gives 500. Otherwise a
  \<open>lat\<close> or \<open>lng\<close> that does not parse to a finite number gives 400. When the upstream is
  queried and the fetch throws or answers with a non-success status, the response is 502.
  An error response that the handler returns has one of these three codes, and each code
  comes only from its cause. A handler that ends with an exception it does not catch returns
  no response, and is not covered.
\<close>

theorem GET_error_responses:
  assumes "GET env req entries = (r, entries', tr)"
  shows "(falsy (latParam req) \<or> falsy (lngParam req) \<longrightarrow>
            r = ErrorResponse 400 ''Missing lat/lng parameters.'') \<and>
         (\<not> falsy (latParam req) \<and> \<not> falsy (lngParam req) \<and> falsy (accessToken env) \<longrightarrow>
            r = ErrorResponse 500 ''Street imagery unavailable. No access token.'') \<and>
         (\<forall>latP lngP.
            latParam req = Some latP \<and> lngParam req = Some lngP \<and> latP \<noteq> [] \<and> lngP \<noteq> [] \<and>
            \<not> falsy (accessToken env) \<and>
            (\<not> isFinite (parseFloat env latP) \<or> \<not> isFinite (parseFloat env lngP)) \<longrightarrow>
            r = ErrorResponse 400 ''Invalid lat/lng parameters.'') \<and>
         (UpstreamQuery \<in> set tr \<and> fetch env = FetchThrows \<longrightarrow>
            r = ErrorResponse 502 ''Failed to reach street imagery service.'') \<and>
         (UpstreamQuery \<in> set tr \<and> (\<exists>d. fetch env = FetchResponse False d) \<longrightarrow>
            r = ErrorResponse 502 ''Street imagery request failed.'') \<and>
         (\<forall>code msg. r = ErrorResponse code msg \<longrightarrow> code = 400 \<or> code = 500 \<or> code = 502) \<and>
         (\<forall>msg. r = ErrorResponse 400 msg \<longrightarrow>
            falsy (latParam req) \<or> falsy (lngParam req) \<or>
            (\<exists>latP lngP. latParam req = Some latP \<and> lngParam req = Some lngP \<and>
               (\<not> isFinite (parseFloat env latP) \<or> \<not> isFinite (parseFloat env lngP)))) \<and>
         (\<forall>msg. r = ErrorResponse 500 msg \<longrightarrow> falsy (accessToken env)) \<and>
         (\<forall>msg. r = ErrorResponse 502 msg \<longrightarrow>
            UpstreamQuery \<in> set tr \<and>
            (fetch env = FetchThrows \<or> (\<exists>d. fetch env = FetchResponse False d)))"
proof -
  note sh = GET_shape[OF assms]
  have c1: "falsy (latParam req) \<or> falsy (lngParam req) \<longrightarrow>
            r = ErrorResponse 400 ''Missing lat/lng parameters.''"
    using sh by blast
  have c2: "\<not> falsy (latParam req) \<and> \<not> falsy (lngParam req) \<and> falsy (accessToken env) \<longrightarrow>
            r = ErrorResponse 500 ''Street imagery unavailable. No access token.''"
    using sh by blast
  have c3: "\<forall>latP lngP.
            latParam req = Some latP \<and> lngParam req = Some lngP \<and> latP \<noteq> [] \<and> lngP \<noteq> [] \<and>
            \<not> falsy (accessToken env) \<and>
            (\<not> isFinite (parseFloat env latP) \<or> \<not> isFinite (parseFloat env lngP)) \<longrightarrow>
            r = ErrorResponse 400 ''Invalid lat/lng parameters.''"
    using assms GET_not_finite[of req _ _ env entries] by auto
  have c4: "UpstreamQuery \<in> set tr \<and> fetch env = FetchThrows \<longrightarrow>
            r = ErrorResponse 502 ''Failed to reach street imagery service.''"
    using sh by auto
  have c5: "UpstreamQuery \<in> set tr \<and> (\<exists>d. fetch env = FetchResponse False d) \<longrightarrow>
            r = ErrorResponse 502 ''Street imagery request failed.''"
    using sh by auto
  have c6: "\<forall>code msg. r = ErrorResponse code msg \<longrightarrow> code = 400 \<or> code = 500 \<or> code = 502"
    using sh by (auto split: upstream.splits if_splits option.splits completion.splits)
  have c7: "\<forall>msg. r = ErrorResponse 400 msg \<longrightarrow>
            falsy (latParam req) \<or> falsy (lngParam req) \<or>
            (\<exists>latP lngP. latParam req = Some latP \<and> lngParam req = Some lngP \<and>
               (\<not> isFinite (parseFloat env latP) \<or> \<not> isFinite (parseFloat env lngP)))"
    using sh by (auto split: upstream.splits if_splits option.splits completion.splits)
  have c8: "\<forall>msg. r = ErrorResponse 500 msg \<longrightarrow> falsy (accessToken env)"
    using sh by (auto split: upstream.splits if_splits option.splits completion.splits)
  have c9: "\<forall>msg. r = ErrorResponse 502 msg \<longrightarrow>
            UpstreamQuery \<in> set tr \<and>
            (fetch env = FetchThrows \<or> (\<exists>d. fetch env = FetchResponse False d))"
    using sh by (auto split: upstream.splits if_splits option.splits completion.splits)
  from c1 c2 c3 c4 c5 c6 c7 c8 c9 show ?thesis by (intro conjI)
qed

text \<open>The upstream is asked and the fetch throws: 502.\<close>

theorem GET_error_responses_witness:
  "UpstreamQuery \<in> set (snd (snd (GET (example_env FetchThrows 0) example_request Map.empty))) \<and>
   fetch (example_env FetchThrows 0) = FetchThrows \<and>
   fst (GET (example_env FetchThrows 0) example_request Map.empty) =
     ErrorResponse 502 ''Failed to reach street imagery service.''"
proof -
  have tr: "snd (snd (GET (example_env FetchThrows 0) example_request Map.empty)) =
      [CacheRead ''40.758000|-73.985500|90.0'', UpstreamQuery]"
    using example_requestBearing[of FetchThrows 0]
    by (simp add: GET_def Let_def getCachedStreetView_def
        lookupImagery_def falsy_def example_env_def example_request_def
        example_parseFloat_def example_toFixed_def getKey_def normalizeBearing_def
        fmod_def trunc_def)
  have f: "fetch (example_env FetchThrows 0) = FetchThrows" by (simp add: example_env_def)
  have p: "GET (example_env FetchThrows 0) example_request Map.empty =
      (fst (GET (example_env FetchThrows 0) example_request Map.empty),
       fst (snd (GET (example_env FetchThrows 0) example_request Map.empty)),
       snd (snd (GET (example_env FetchThrows 0) example_request Map.empty)))" by simp
  from GET_error_responses[OF p] tr f show ?thesis by simp
qed

text \<open>
  Against C8 as first stated. With no access token configured, a request whose \<open>lat\<close> is
  \<open>abc\<close> is answered with 500 and not 400, the token being checked before the numbers are
  parsed. With a token configured and valid coordinates, an upstream that answers with
  success and a body that is not JSON makes \<open>response.json()\<close> throw outside any
  \<open>try\<close>: the handler returns none of the three error responses, and the framework
  answers 500.
\<close>

theorem errors_outside_the_stated_causes:
  "\<not> isFinite (example_parseFloat ''abc'') \<and>
   fst (GET ((example_env FetchThrows 0)\<lparr>accessToken := None\<rparr>)
            (example_request\<lparr>latParam := Some ''abc''\<rparr>) Map.empty) =
     ErrorResponse 500 ''Street imagery unavailable. No access token.'' \<and>
   \<not> falsy (accessToken (example_env (FetchResponse True None) 0)) \<and>
   GET (example_env (FetchResponse True None) 0) example_request Map.empty =
     (UncaughtException, Map.empty, [CacheRead ''40.758000|-73.985500|90.0'', UpstreamQuery]) \<and>
   status UncaughtException = 500"
proof -
  have a: "\<not> isFinite (example_parseFloat ''abc'') \<and>
   fst (GET ((example_env FetchThrows 0)\<lparr>accessToken := None\<rparr>)
            (example_request\<lparr>latParam := Some ''abc''\<rparr>) Map.empty) =
     ErrorResponse 500 ''Street imagery unavailable. No access token.''"
    by (simp add: GET_def falsy_def example_env_def example_request_def example_parseFloat_def)
  have b: "GET (example_env (FetchResponse True None) 0) example_request Map.empty =
     (UncaughtException, Map.empty, [CacheRead ''40.758000|-73.985500|90.0'', UpstreamQuery])"
    using example_requestBearing[of "FetchResponse True None" 0]
    by (simp add: GET_def Let_def getCachedStreetView_def
        lookupImagery_def falsy_def example_env_def example_request_def
        example_parseFloat_def example_toFixed_def getKey_def normalizeBearing_def
        fmod_def trunc_def)
  have c: "\<not> falsy (accessToken (example_env (FetchResponse True None) 0))"
    by (simp add: falsy_def example_env_def)
  from a b c show ?thesis by simp
qed

text \<open>
  When the handler ends with an exception it does not catch: a token is configured and the
  coordinates are finite, and either the cache read removed an expired entry and
  \<open>persistCache\<close> threw, or the upstream answered with success and the body was not JSON, or
  was JSON that the handler cannot iterate, or the cache write's \<open>persistCache\<close> threw.
\<close>

lemma GET_uncaught:
  assumes "GET env req entries = (UncaughtException, entries', tr)"
  shows "\<not> falsy (accessToken env) \<and>
         ((UpstreamQuery \<notin> set tr \<and> persistThrows_at_read env \<and> entries' \<noteq> entries) \<or>
          (UpstreamQuery \<in> set tr \<and>
             (\<exists>body. fetch env = FetchResponse True body \<and>
                (body = None \<or> (\<exists>parsed. body = Some parsed \<and> responseImages parsed = Throws) \<or>
                 (requestBearing env req \<noteq> None \<and> persistThrows_at_write env)))))"
  using GET_shape[OF assms]
  by (auto split: upstream.splits if_splits option.splits completion.splits)

text \<open>
  C10 (as amended). For every request whose \<open>bearing\<close> parameter is absent or does not parse to
  a finite number, the handler leaves the cache as it is and makes no cache read and no cache
  write; unless it rejects the request with 400 or 500, its one effect is the upstream query,
  also when it then ends with an exception it does not catch. Conversely a cache read, a cache
  write or a changed cache occurs only for a request whose \<open>bearing\<close> parses to a finite number.
\<close>

theorem GET_without_bearing:
  assumes "GET env req entries = (r, entries', tr)"
  shows "(bearingParam req = None \<or>
          (\<exists>bp. bearingParam req = Some bp \<and> \<not> isFinite (parseFloat env bp)) \<longrightarrow>
            entries' = entries \<and>
            (\<forall>k. CacheRead k \<notin> set tr \<and> CacheWrite k \<notin> set tr) \<and>
            (status r \<noteq> 400 \<and> status r \<noteq> 500 \<longrightarrow> tr = [UpstreamQuery]) \<and>
            (r = UncaughtException \<longrightarrow> tr = [UpstreamQuery])) \<and>
         (entries' \<noteq> entries \<or> (\<exists>k. CacheRead k \<in> set tr \<or> CacheWrite k \<in> set tr) \<longrightarrow>
            (\<exists>bp. bearingParam req = Some bp \<and> isFinite (parseFloat env bp)))"
proof -
  have main: "entries' = entries \<and>
      (\<forall>k. CacheRead k \<notin> set tr \<and> CacheWrite k \<notin> set tr) \<and>
      (status r \<noteq> 400 \<and> status r \<noteq> 500 \<longrightarrow> tr = [UpstreamQuery]) \<and>
      (r = UncaughtException \<longrightarrow> tr = [UpstreamQuery])"
    if nb: "requestBearing env req = None"
  proof (cases rule: GET_cases[where req=req and env=env])
    case missing
    from GET_missing[OF this, of env entries] assms show ?thesis by simp
  next
    case no_token
    from GET_no_token[OF this, of entries] assms show ?thesis by simp
  next
    case (not_finite latP lngP)
    from GET_not_finite[OF this, of entries] assms show ?thesis by simp
  next
    case (valid latP lngP)
    from GET_valid[OF this, of entries] nb assms
    have "lookupImagery env (parseFloat env latP) (parseFloat env lngP) None entries [] =
            (r, entries', tr)" by simp
    from lookupImagery_None[OF this] show ?thesis by simp
  qed
  have absent: "requestBearing env req = None"
    if "bearingParam req = None \<or>
        (\<exists>bp. bearingParam req = Some bp \<and> \<not> isFinite (parseFloat env bp))"
    using that by (simp add: requestBearing_None_iff)
  have first: "bearingParam req = None \<or>
          (\<exists>bp. bearingParam req = Some bp \<and> \<not> isFinite (parseFloat env bp)) \<longrightarrow>
            entries' = entries \<and>
            (\<forall>k. CacheRead k \<notin> set tr \<and> CacheWrite k \<notin> set tr) \<and>
            (status r \<noteq> 400 \<and> status r \<noteq> 500 \<longrightarrow> tr = [UpstreamQuery]) \<and>
            (r = UncaughtException \<longrightarrow> tr = [UpstreamQuery])"
  proof (rule impI)
    assume a: "bearingParam req = None \<or>
          (\<exists>bp. bearingParam req = Some bp \<and> \<not> isFinite (parseFloat env bp))"
    from main[OF absent[OF a]] show "entries' = entries \<and>
            (\<forall>k. CacheRead k \<notin> set tr \<and> CacheWrite k \<notin> set tr) \<and>
            (status r \<noteq> 400 \<and> status r \<noteq> 500 \<longrightarrow> tr = [UpstreamQuery]) \<and>
            (r = UncaughtException \<longrightarrow> tr = [UpstreamQuery])" .
  qed
  have second: "entries' \<noteq> entries \<or> (\<exists>k. CacheRead k \<in> set tr \<or> CacheWrite k \<in> set tr) \<longrightarrow>
            (\<exists>bp. bearingParam req = Some bp \<and> isFinite (parseFloat env bp))"
  proof (rule impI, rule ccontr)
    assume eff: "entries' \<noteq> entries \<or> (\<exists>k. CacheRead k \<in> set tr \<or> CacheWrite k \<in> set tr)"
      and no: "\<nexists>bp. bearingParam req = Some bp \<and> isFinite (parseFloat env bp)"
    from no have "bearingParam req = None \<or>
        (\<exists>bp. bearingParam req = Some bp \<and> \<not> isFinite (parseFloat env bp))"
      by (cases "bearingParam req") auto
    from main[OF absent[OF this]] eff show False by blast
  qed
  from first second show ?thesis by (rule conjI)
qed

text \<open>
  A request without \<open>bearing\<close>, the upstream answering with an object that has no \<open>data\<close>: the
  upstream is queried and the cache is untouched.
\<close>

theorem GET_without_bearing_witness:
  "bearingParam (example_request\<lparr>bearingParam := None\<rparr>) = None \<and>
   fst (snd (GET (example_env (FetchResponse True (Some (JObj []))) 0)
               (example_request\<lparr>bearingParam := None\<rparr>) Map.empty)) = Map.empty \<and>
   snd (snd (GET (example_env (FetchResponse True (Some (JObj []))) 0)
               (example_request\<lparr>bearingParam := None\<rparr>) Map.empty)) = [UpstreamQuery]"
proof -
  let ?g = "GET (example_env (FetchResponse True (Some (JObj []))) 0)
               (example_request\<lparr>bearingParam := None\<rparr>) Map.empty"
  have p: "?g = (fst ?g, fst (snd ?g), snd (snd ?g))" by simp
  have nb: "bearingParam (example_request\<lparr>bearingParam := None\<rparr>) = None" by simp
  have st: "status (fst ?g) = 200"
    by (simp add: GET_def Let_def falsy_def requestBearing_def lookupImagery_def
        example_env_def example_request_def example_parseFloat_def)
  from GET_without_bearing[OF p] nb st show ?thesis by simp
qed

text \<open>
  Against C10 as first stated (the upstream is always queried): a request without \<open>bearing\<close>
  and without \<open>lat\<close> is rejected with 400 before any upstream query.
\<close>

theorem rejected_request_skips_upstream:
  "bearingParam (example_request\<lparr>latParam := None, bearingParam := None\<rparr>) = None \<and>
   fst (GET (example_env (FetchResponse True (Some (JObj []))) 0)
          (example_request\<lparr>latParam := None, bearingParam := None\<rparr>) Map.empty) =
     ErrorResponse 400 ''Missing lat/lng parameters.'' \<and>
   snd (snd (GET (example_env (FetchResponse True (Some (JObj []))) 0)
          (example_request\<lparr>latParam := None, bearingParam := None\<rparr>) Map.empty)) = []"
  by (simp add: GET_def example_request_def)

end
